theory Spec2Isabelle
  imports Main "HOL-Library.Word"
begin

unbundle bit_operations_syntax

section \<open>Values of the program\<close>

text \<open>
  The converter of \<^verbatim>\<open>KML-KMZ-2-SHAPE-FILE/kml-kmz-2-shp.py\<close> works on Python
  \<^verbatim>\<open>str\<close> (sequences of Unicode code points), \<^verbatim>\<open>bytes\<close>, unbounded
  integers and \<^verbatim>\<open>float\<close> (IEEE 754 binary64).  A \<^verbatim>\<open>str\<close> is the list of its
  code points, a \<^verbatim>\<open>bytes\<close> object a list of 8-bit words, and a \<^verbatim>\<open>float\<close> is
  its 64-bit pattern: the program never does arithmetic on a float, it only parses,
  compares and packs them, and all three are exact on the bit pattern.
\<close>

type_synonym byte = "8 word"
type_synonym pystr = "nat list"
type_synonym float64 = "64 word"
type_synonym vertex = "float64 \<times> float64"
type_synonym shape = "vertex list"

definition py_str :: "string \<Rightarrow> pystr" where
  \<comment> \<open>an ASCII literal of the source as a \<^verbatim>\<open>str\<close>\<close>
  "py_str s = map of_char s"

definition py_bytes :: "string \<Rightarrow> byte list" where
  \<comment> \<open>an ASCII literal \<^verbatim>\<open>b'...'\<close> of the source\<close>
  "py_bytes s = map of_char s"

subsection \<open>Comparison of floats\<close>

definition is_nan :: "float64 \<Rightarrow> bool" where
  "is_nan w = (take_bit 11 (drop_bit 52 w) = 2047 \<and> take_bit 52 w \<noteq> 0)"

definition float_key :: "float64 \<Rightarrow> int" where
  \<comment> \<open>sign and magnitude: the order of the keys is the order of the values,
      and the two zeros share the key 0\<close>
  "float_key w = (if bit w 63 then - uint (take_bit 63 w) else uint (take_bit 63 w))"

definition float_lt :: "float64 \<Rightarrow> float64 \<Rightarrow> bool" where
  "float_lt a b = (\<not> is_nan a \<and> \<not> is_nan b \<and> float_key a < float_key b)"

definition float_le :: "float64 \<Rightarrow> float64 \<Rightarrow> bool" where
  "float_le a b = (\<not> is_nan a \<and> \<not> is_nan b \<and> float_key a \<le> float_key b)"

definition float_eq :: "float64 \<Rightarrow> float64 \<Rightarrow> bool" where
  "float_eq a b = (\<not> is_nan a \<and> \<not> is_nan b \<and> float_key a = float_key b)"

definition vertex_eq :: "vertex \<Rightarrow> vertex \<Rightarrow> bool" where
  \<comment> \<open>\<^verbatim>\<open>[lon, lat] == [lon', lat']\<close> on two lists of two floats\<close>
  "vertex_eq p q = (float_eq (fst p) (fst q) \<and> float_eq (snd p) (snd q))"

text \<open>The integer literals that the source compares coordinates with, as floats.\<close>

definition f_180 :: float64 where "f_180 = 0x4066800000000000"
definition f_neg180 :: float64 where "f_neg180 = 0xC066800000000000"
definition f_90 :: float64 where "f_90 = 0x4056800000000000"
definition f_neg90 :: float64 where "f_neg90 = 0xC056800000000000"

text \<open>
  \<^verbatim>\<open>min(it)\<close> and \<^verbatim>\<open>max(it)\<close> keep the first item and replace it by a later one
  that is strictly smaller (larger); on an empty sequence they raise \<^verbatim>\<open>ValueError\<close>.
\<close>

definition py_min :: "float64 list \<Rightarrow> float64 option" where
  "py_min xs = (case xs of [] \<Rightarrow> None
     | x # rest \<Rightarrow> Some (fold (\<lambda>item cur. if float_lt item cur then item else cur) rest x))"

definition py_max :: "float64 list \<Rightarrow> float64 option" where
  "py_max xs = (case xs of [] \<Rightarrow> None
     | x # rest \<Rightarrow> Some (fold (\<lambda>item cur. if float_lt cur item then item else cur) rest x))"

subsection \<open>\<^verbatim>\<open>struct.pack\<close>\<close>

text \<open>
  A packed field is \<open>None\<close> where \<^verbatim>\<open>struct.pack\<close> raises \<^verbatim>\<open>struct.error\<close>
  (an integer outside the range of the format).
\<close>

type_synonym chunk = "byte list option"

definition pack_I_be :: "nat \<Rightarrow> chunk" where
  \<comment> \<open>\<^verbatim>\<open>struct.pack('>I', n)\<close>\<close>
  "pack_I_be n = (if n < 2 ^ 32
     then Some [of_nat (n div 2 ^ 24), of_nat (n div 2 ^ 16), of_nat (n div 2 ^ 8), of_nat n]
     else None)"

definition pack_I_le :: "nat \<Rightarrow> chunk" where
  \<comment> \<open>\<^verbatim>\<open>struct.pack('<I', n)\<close>\<close>
  "pack_I_le n = (if n < 2 ^ 32
     then Some [of_nat n, of_nat (n div 2 ^ 8), of_nat (n div 2 ^ 16), of_nat (n div 2 ^ 24)]
     else None)"

definition pack_H_le :: "nat \<Rightarrow> chunk" where
  \<comment> \<open>\<^verbatim>\<open>struct.pack('<H', n)\<close>\<close>
  "pack_H_le n = (if n < 2 ^ 16 then Some [of_nat n, of_nat (n div 2 ^ 8)] else None)"

definition pack_B :: "nat \<Rightarrow> chunk" where
  \<comment> \<open>\<^verbatim>\<open>struct.pack('<B', n)\<close>\<close>
  "pack_B n = (if n < 2 ^ 8 then Some [of_nat n] else None)"

definition pack_d_le :: "float64 \<Rightarrow> byte list" where
  \<comment> \<open>\<^verbatim>\<open>struct.pack('<d', x)\<close>: the eight bytes of the pattern, lowest first\<close>
  "pack_d_le w =
     [ucast w, ucast (drop_bit 8 w), ucast (drop_bit 16 w), ucast (drop_bit 24 w),
      ucast (drop_bit 32 w), ucast (drop_bit 40 w), ucast (drop_bit 48 w), ucast (drop_bit 56 w)]"

definition zeros :: "nat \<Rightarrow> byte list" where
  \<comment> \<open>\<^verbatim>\<open>b'\x00' * n\<close>\<close>
  "zeros n = replicate n 0"

text \<open>
  A file opened with \<^verbatim>\<open>'wb'\<close> receives the chunks in order.  When a chunk raises,
  the bytes written before it stay in the file and the flag is \<open>False\<close>.
\<close>

fun run_writes :: "chunk list \<Rightarrow> byte list \<times> bool" where
  "run_writes [] = ([], True)"
| "run_writes (None # cs) = ([], False)"
| "run_writes (Some b # cs) = (b @ fst (run_writes cs), snd (run_writes cs))"

text \<open>Readers of the fields, for stating what a file holds.\<close>

definition slice :: "nat \<Rightarrow> nat \<Rightarrow> 'a list \<Rightarrow> 'a list" where
  \<comment> \<open>\<^verbatim>\<open>xs[i:j]\<close> for \<open>0 \<le> i \<le> j\<close>\<close>
  "slice i j xs = take (j - i) (drop i xs)"

definition unpack_I_be :: "byte list \<Rightarrow> nat" where
  "unpack_I_be bs = foldl (\<lambda>acc b. acc * 256 + unat b) 0 bs"

definition unpack_I_le :: "byte list \<Rightarrow> nat" where
  "unpack_I_le bs = foldr (\<lambda>b acc. acc * 256 + unat b) bs 0"

definition unpack_d_le :: "byte list \<Rightarrow> float64" where
  "unpack_d_le bs = foldr (\<lambda>b acc. push_bit 8 acc OR ucast b) bs 0"

section \<open>The geometry file: \<^verbatim>\<open>write_shp\<close>\<close>

definition file_length_shp :: "shape list \<Rightarrow> nat" where
  \<comment> \<open>lines 139 to 141: \<^verbatim>\<open>file_length = 50\<close>, then
      \<^verbatim>\<open>file_length += 4 + 44 + len(shape) * 16\<close> for each shape\<close>
  "file_length_shp shapes = fold (\<lambda>shape fl. fl + (4 + 44 + length shape * 16)) shapes 50"

definition bbox_chunk :: "vertex list \<Rightarrow> chunk" where
  \<comment> \<open>the four extrema are computed first (each raises on no vertex), then written\<close>
  "bbox_chunk cs =
     (case py_min (map fst cs) of None \<Rightarrow> None | Some min_x \<Rightarrow>
     (case py_min (map snd cs) of None \<Rightarrow> None | Some min_y \<Rightarrow>
     (case py_max (map fst cs) of None \<Rightarrow> None | Some max_x \<Rightarrow>
     (case py_max (map snd cs) of None \<Rightarrow> None | Some max_y \<Rightarrow>
        Some (pack_d_le min_x @ pack_d_le min_y @ pack_d_le max_x @ pack_d_le max_y)))))"

definition file_bbox_chunk :: "shape list \<Rightarrow> chunk" where
  \<comment> \<open>lines 148 to 160: the box of all vertices, or four zeros when there is no shape\<close>
  "file_bbox_chunk shapes =
     (if shapes \<noteq> [] then bbox_chunk (concat shapes) else Some (zeros 32))"

definition shp_header :: "shape list \<Rightarrow> chunk list" where
  "shp_header shapes =
     [pack_I_be 9994, Some (zeros 20), pack_I_be (file_length_shp shapes),
      pack_I_le 1000, pack_I_le 5, file_bbox_chunk shapes,
      Some (pack_d_le 0), Some (pack_d_le 0), Some (pack_d_le 0), Some (pack_d_le 0)]"

definition shp_record :: "nat \<Rightarrow> shape \<Rightarrow> chunk list" where
  \<comment> \<open>the body of the loop of lines 167 to 193, for the index \<open>i\<close> of \<^verbatim>\<open>enumerate\<close>\<close>
  "shp_record i shape =
     (let record_length = 44 + length shape * 16 in
      [pack_I_be (i + 1), pack_I_be (record_length div 2), pack_I_le 5, bbox_chunk shape,
       pack_I_le 1, pack_I_le (length shape), pack_I_le 0]
      @ concat (map (\<lambda>coord. [Some (pack_d_le (fst coord)), Some (pack_d_le (snd coord))]) shape))"

fun shp_records :: "nat \<Rightarrow> shape list \<Rightarrow> chunk list" where
  "shp_records i [] = []"
| "shp_records i (shape # rest) = shp_record i shape @ shp_records (i + 1) rest"

definition write_shp :: "shape list \<Rightarrow> byte list \<times> bool" where
  "write_shp shapes = run_writes (shp_header shapes @ shp_records 0 shapes)"

section \<open>The index file: \<^verbatim>\<open>write_shx\<close>\<close>

definition shx_header :: "shape list \<Rightarrow> chunk list" where
  "shx_header shapes =
     [pack_I_be 9994, Some (zeros 20), pack_I_be (50 + length shapes * 4),
      pack_I_le 1000, pack_I_le 5, file_bbox_chunk shapes, Some (zeros 32)]"

fun shx_entries :: "nat \<Rightarrow> shape list \<Rightarrow> chunk list" where
  \<comment> \<open>the loop of lines 225 to 229; the first argument is \<^verbatim>\<open>offset\<close>\<close>
  "shx_entries offset [] = []"
| "shx_entries offset (shape # rest) =
     (let content_length = 44 + length shape * 16 in
      [pack_I_be offset, pack_I_be (content_length div 2)]
      @ shx_entries (offset + (4 + content_length)) rest)"

definition write_shx :: "shape list \<Rightarrow> byte list \<times> bool" where
  "write_shx shapes = run_writes (shx_header shapes @ shx_entries 50 shapes)"

section \<open>Operations on \<^verbatim>\<open>str\<close>\<close>

definition py_isspace :: "nat \<Rightarrow> bool" where
  \<comment> \<open>the code points that \<^verbatim>\<open>str.strip()\<close> and \<^verbatim>\<open>str.split()\<close> take as white space\<close>
  "py_isspace c = ((9 \<le> c \<and> c \<le> 13) \<or> (28 \<le> c \<and> c \<le> 32) \<or> c = 0x85 \<or> c = 0xA0
     \<or> c = 0x1680 \<or> (0x2000 \<le> c \<and> c \<le> 0x200A) \<or> c = 0x2028 \<or> c = 0x2029
     \<or> c = 0x202F \<or> c = 0x205F \<or> c = 0x3000)"

definition strip :: "pystr \<Rightarrow> pystr" where
  \<comment> \<open>\<^verbatim>\<open>s.strip()\<close>\<close>
  "strip s = rev (dropWhile py_isspace (rev (dropWhile py_isspace s)))"

fun contains :: "pystr \<Rightarrow> pystr \<Rightarrow> bool" where
  \<comment> \<open>\<^verbatim>\<open>sub in s\<close>\<close>
  "contains sub [] = (sub = [])"
| "contains sub (c # cs) = (take (length sub) (c # cs) = sub \<or> contains sub cs)"

definition endswith :: "pystr \<Rightarrow> pystr \<Rightarrow> bool" where
  \<comment> \<open>\<^verbatim>\<open>s.endswith(suffix)\<close>\<close>
  "endswith s suffix = (length suffix \<le> length s \<and> drop (length s - length suffix) s = suffix)"

fun replace_char :: "nat \<Rightarrow> nat \<Rightarrow> pystr \<Rightarrow> pystr" where
  \<comment> \<open>\<^verbatim>\<open>s.replace(old, new)\<close> for two strings of one character\<close>
  "replace_char old new [] = []"
| "replace_char old new (c # cs) = (if c = old then new else c) # replace_char old new cs"

fun replace_crlf :: "pystr \<Rightarrow> pystr" where
  \<comment> \<open>\<^verbatim>\<open>s.replace('\r\n', '\n')\<close>\<close>
  "replace_crlf (c # d # cs) =
     (if c = 13 \<and> d = 10 then 10 # replace_crlf cs else c # replace_crlf (d # cs))"
| "replace_crlf cs = cs"

fun split_char :: "nat \<Rightarrow> pystr \<Rightarrow> pystr list" where
  \<comment> \<open>\<^verbatim>\<open>s.split(sep)\<close> for a separator of one character: the fields between the
      separators, empty fields included\<close>
  "split_char sep [] = [[]]"
| "split_char sep (c # cs) =
     (if c = sep then [] # split_char sep cs
      else (case split_char sep cs of [] \<Rightarrow> [[c]] | w # ws \<Rightarrow> (c # w) # ws))"

function split_ws :: "pystr \<Rightarrow> pystr list" where
  \<comment> \<open>\<^verbatim>\<open>s.split()\<close>: the maximal runs of characters that are not white space\<close>
  "split_ws s =
     (let t = dropWhile py_isspace s in
      if t = [] then []
      else takeWhile (\<lambda>c. \<not> py_isspace c) t # split_ws (dropWhile (\<lambda>c. \<not> py_isspace c) t))"
  by pat_completeness auto
termination
proof (relation "measure length")
  show "wf (measure length)" by simp
next
  fix s t :: pystr
  assume t: "t = dropWhile py_isspace s" and ne: "t \<noteq> []"
  have "length (dropWhile (\<lambda>c. \<not> py_isspace c) t) < length t"
  proof (cases t)
    case Nil
    with ne show ?thesis by simp
  next
    case (Cons c cs)
    have "\<not> py_isspace (hd t)"
      using ne unfolding t by (rule hd_dropWhile)
    with Cons have "dropWhile (\<lambda>c. \<not> py_isspace c) t = dropWhile (\<lambda>c. \<not> py_isspace c) cs"
      by simp
    moreover have "length (dropWhile (\<lambda>c. \<not> py_isspace c) cs) \<le> length cs"
      by (rule length_dropWhile_le)
    ultimately show ?thesis using Cons by simp
  qed
  moreover have "length t \<le> length s"
    unfolding t by (rule length_dropWhile_le)
  ultimately show "(dropWhile (\<lambda>c. \<not> py_isspace c) t, s) \<in> measure length"
    by simp
qed

definition ljust :: "nat \<Rightarrow> 'a \<Rightarrow> 'a list \<Rightarrow> 'a list" where
  \<comment> \<open>\<^verbatim>\<open>s.ljust(width, fill)\<close>\<close>
  "ljust width fill s = s @ replicate (width - length s) fill"

definition digit_char :: "nat \<Rightarrow> nat" where
  "digit_char d = 48 + d"

function str_of_nat :: "nat \<Rightarrow> pystr" where
  \<comment> \<open>the decimal digits of a non-negative integer, as an f-string prints it\<close>
  "str_of_nat n = (if n < 10 then [digit_char n] else str_of_nat (n div 10) @ [digit_char (n mod 10)])"
  by pat_completeness auto
termination
  by (relation "measure id") auto

section \<open>Parsing coordinates: \<^verbatim>\<open>parse_coordinates\<close>\<close>

definition valid_vertex :: "vertex \<Rightarrow> bool" where
  \<comment> \<open>line 61: \<^verbatim>\<open>-180 <= lon <= 180 and -90 <= lat <= 90\<close>\<close>
  "valid_vertex v = (float_le f_neg180 (fst v) \<and> float_le (fst v) f_180
     \<and> float_le f_neg90 (snd v) \<and> float_le (snd v) f_90)"

text \<open>
  \<^verbatim>\<open>float(s)\<close> is a function of the Python runtime and a parameter \<open>pf\<close> of the
  model: \<open>None\<close> where it raises \<^verbatim>\<open>ValueError\<close>.  \<open>parse_part\<close> is the body of the
  loop over \<^verbatim>\<open>parts\<close> (lines 50 to 64): the vertices that one token appends, none
  or one.
\<close>

definition parse_part :: "(pystr \<Rightarrow> float64 option) \<Rightarrow> pystr \<Rightarrow> vertex list" where
  "parse_part pf part0 =
     (let part = strip part0 in
      if part = [] \<or> 44 \<notin> set part then []
      else
        let coord_parts = split_char 44 part in
        if length coord_parts \<ge> 2 then
          (case pf (coord_parts ! 0) of None \<Rightarrow> []
           | Some lon \<Rightarrow>
             (case pf (coord_parts ! 1) of None \<Rightarrow> []
              | Some lat \<Rightarrow> if valid_vertex (lon, lat) then [(lon, lat)] else []))
        else [])"

definition parse_line :: "(pystr \<Rightarrow> float64 option) \<Rightarrow> pystr \<Rightarrow> vertex list" where
  \<comment> \<open>the body of the loop over \<^verbatim>\<open>lines\<close> (lines 42 to 64)\<close>
  "parse_line pf line0 =
     (let line = strip line0 in
      if line = [] then []
      else concat (map (parse_part pf) (split_char 32 (replace_char 9 32 line))))"

definition parse_coordinates :: "(pystr \<Rightarrow> float64 option) \<Rightarrow> pystr \<Rightarrow> vertex list" where
  "parse_coordinates pf coord_text0 =
     (if coord_text0 = [] then []
      else
        let coord_text = strip coord_text0;
            lines = split_char 10 (replace_char 13 10 (replace_crlf coord_text))
        in concat (map (parse_line pf) lines))"

section \<open>The document tree\<close>

text \<open>
  An \<^verbatim>\<open>xml.etree.ElementTree.Element\<close>: its tag, its text and its children.  The
  program reads \<^verbatim>\<open>child.text\<close> only after testing it for truth, so the text
  \<^verbatim>\<open>None\<close> and the empty text are the same value here.
\<close>

datatype element = Element (elem_tag: pystr) (elem_text: pystr) (elem_children: "element list")

fun iter :: "element \<Rightarrow> element list" where
  \<comment> \<open>\<^verbatim>\<open>elem.iter()\<close>: the element, then its descendants, in document order\<close>
  "iter (Element t x cs) = Element t x cs # concat (map iter cs)"

fun descendants_with_parent :: "element \<Rightarrow> (element \<times> element) list" where
  \<comment> \<open>every proper descendant with its parent, in document order\<close>
  "descendants_with_parent (Element t x cs) =
     concat (map (\<lambda>c. (c, Element t x cs) # descendants_with_parent c) cs)"

definition find_parent :: "element \<Rightarrow> pystr \<Rightarrow> element option" where
  \<comment> \<open>\<^verbatim>\<open>elem.find('.//' + t + '/..')\<close> for an element tag \<open>t\<close>: the parent of the
      first proper descendant of \<open>elem\<close> whose tag is \<open>t\<close>\<close>
  "find_parent elem t =
     (case List.find (\<lambda>dp. elem_tag (fst dp) = t) (descendants_with_parent elem) of
        None \<Rightarrow> None
      | Some dp \<Rightarrow> Some (snd dp))"

fun polygon_check :: "nat \<Rightarrow> element \<Rightarrow> element \<Rightarrow> element \<Rightarrow> bool" where
  \<comment> \<open>the loop \<^verbatim>\<open>for _ in range(5)\<close> of lines 101 to 113, with the rounds that are
      left, the placemark, the coordinates element and \<^verbatim>\<open>parent\<close>; the result is
      \<^verbatim>\<open>is_polygon\<close>\<close>
  "polygon_check 0 elem child parent = False"
| "polygon_check (Suc n) elem child parent =
     (if contains (py_str ''Polygon'') (elem_tag parent) then True
      else
        (case find_parent elem (elem_tag parent) of
           None \<Rightarrow>
             (let coord_text = strip (elem_text child) in
              10 \<in> set coord_text \<or> length (split_ws coord_text) > 10)
         | Some p \<Rightarrow> polygon_check n elem child p))"

section \<open>Extraction: \<^verbatim>\<open>parse_kml\<close>\<close>

record attr_row =
  name :: pystr
  description :: pystr

record converter =
  shapes :: "shape list"
  records :: "attr_row list"

definition find_name :: "element \<Rightarrow> pystr" where
  \<comment> \<open>lines 79 and 84 to 87\<close>
  "find_name elem =
     (case List.find (\<lambda>child. contains (py_str ''name'') (elem_tag child) \<and> elem_text child \<noteq> [])
             (iter elem) of
        None \<Rightarrow> []
      | Some child \<Rightarrow> take 50 (elem_text child))"

definition find_description :: "element \<Rightarrow> pystr" where
  \<comment> \<open>lines 80 and 90 to 93\<close>
  "find_description elem =
     (case List.find (\<lambda>child. contains (py_str ''description'') (elem_tag child) \<and> elem_text child \<noteq> [])
             (iter elem) of
        None \<Rightarrow> []
      | Some child \<Rightarrow> take 100 (elem_text child))"

definition find_coordinates :: "(pystr \<Rightarrow> float64 option) \<Rightarrow> element \<Rightarrow> vertex list" where
  \<comment> \<open>lines 81 and 96 to 117: the first coordinates element with text that the check
      takes for a polygon is parsed, and the search stops there\<close>
  "find_coordinates pf elem =
     (case List.find (\<lambda>child. contains (py_str ''coordinates'') (elem_tag child)
                        \<and> elem_text child \<noteq> [] \<and> polygon_check 5 elem child child)
             (iter elem) of
        None \<Rightarrow> []
      | Some child \<Rightarrow> parse_coordinates pf (elem_text child))"

definition close_ring :: "vertex list \<Rightarrow> vertex list" where
  \<comment> \<open>lines 121 and 122, on a list that is not empty\<close>
  "close_ring coordinates =
     (if \<not> vertex_eq (hd coordinates) (last coordinates)
      then coordinates @ [hd coordinates] else coordinates)"

definition add_polygon :: "converter \<Rightarrow> pystr \<Rightarrow> pystr \<Rightarrow> vertex list \<Rightarrow> converter" where
  \<comment> \<open>lines 119 to 128\<close>
  "add_polygon self nm descr coordinates =
     (if coordinates \<noteq> [] \<and> length coordinates \<ge> 3 then
        let shapes1 = shapes self @ [close_ring coordinates]
        in \<lparr>shapes = shapes1,
            records = records self @
              [\<lparr>name = (if nm \<noteq> [] then nm
                         else py_str ''Polygon_'' @ str_of_nat (length shapes1 + 1)),
                description = descr\<rparr>]\<rparr>
      else self)"

definition parse_placemark :: "(pystr \<Rightarrow> float64 option) \<Rightarrow> element \<Rightarrow> converter \<Rightarrow> converter" where
  \<comment> \<open>the body of the loop over \<^verbatim>\<open>root.iter()\<close> (lines 78 to 128)\<close>
  "parse_placemark pf elem self =
     (if contains (py_str ''Placemark'') (elem_tag elem)
      then add_polygon self (find_name elem) (find_description elem) (find_coordinates pf elem)
      else self)"

definition parse_root :: "(pystr \<Rightarrow> float64 option) \<Rightarrow> converter \<Rightarrow> element \<Rightarrow> converter" where
  \<comment> \<open>the loop of lines 77 to 128\<close>
  "parse_root pf self root = fold (parse_placemark pf) (iter root) self"

text \<open>
  \<^verbatim>\<open>ET.fromstring\<close> is a function of the Python library and the parameter \<open>xml\<close>:
  \<open>None\<close> where it raises.  The result is the converter after the call and the value
  returned.
\<close>

definition parse_kml ::
  "(pystr \<Rightarrow> element option) \<Rightarrow> (pystr \<Rightarrow> float64 option) \<Rightarrow> converter \<Rightarrow> pystr \<Rightarrow> converter \<times> bool"
where
  "parse_kml xml pf self kml_content =
     (case xml kml_content of
        None \<Rightarrow> (self, False)
      | Some root \<Rightarrow>
          (let self1 = parse_root pf self root in (self1, length (shapes self1) > 0)))"

section \<open>The attribute file: \<^verbatim>\<open>write_dbf\<close>\<close>

definition utf8_encode_char :: "nat \<Rightarrow> byte list" where
  \<comment> \<open>one code point under \<^verbatim>\<open>encode('utf-8', errors='ignore')\<close>: a surrogate has no
      encoding and is left out\<close>
  "utf8_encode_char c =
     (if c < 0x80 then [of_nat c]
      else if c < 0x800 then [of_nat (0xC0 + c div 64), of_nat (0x80 + c mod 64)]
      else if 0xD800 \<le> c \<and> c \<le> 0xDFFF then []
      else if c < 0x10000 then
        [of_nat (0xE0 + c div 4096), of_nat (0x80 + c div 64 mod 64), of_nat (0x80 + c mod 64)]
      else
        [of_nat (0xF0 + c div 262144), of_nat (0x80 + c div 4096 mod 64),
         of_nat (0x80 + c div 64 mod 64), of_nat (0x80 + c mod 64)])"

definition utf8_encode_ignore :: "pystr \<Rightarrow> byte list" where
  "utf8_encode_ignore s = concat (map utf8_encode_char s)"

definition dbf_header :: "attr_row list \<Rightarrow> chunk list" where
  \<comment> \<open>lines 235 to 257\<close>
  "dbf_header recs =
     [pack_B 3, Some [24, 1, 1], pack_I_le (length recs), pack_H_le 193, pack_H_le 151,
      Some (zeros 20),
      Some (ljust 11 0 (py_bytes ''NAME'')), Some (py_bytes ''C''), Some (zeros 4),
      Some [50, 0], Some (zeros 14),
      Some (ljust 11 0 (py_bytes ''DESC'')), Some (py_bytes ''C''), Some (zeros 4),
      Some [100, 0], Some (zeros 14),
      Some [0x0D]]"

definition dbf_row :: "attr_row \<Rightarrow> chunk list" where
  \<comment> \<open>the body of the loop of lines 260 to 263\<close>
  "dbf_row r =
     [Some (py_bytes '' ''),
      Some (utf8_encode_ignore (ljust 50 32 (take 50 (name r)))),
      Some (utf8_encode_ignore (ljust 100 32 (take 100 (description r))))]"

definition write_dbf :: "attr_row list \<Rightarrow> byte list \<times> bool" where
  "write_dbf recs = run_writes (dbf_header recs @ concat (map dbf_row recs))"

section \<open>The projection file: \<^verbatim>\<open>write_prj\<close>\<close>

definition wgs84 :: string where
  \<open>wgs84 = ''GEOGCS["GCS_WGS_1984",DATUM["D_WGS_1984",SPHEROID["WGS_1984",6378137,298.257223563]],PRIMEM["Greenwich",0],UNIT["Degree",0.017453292519943295]]''\<close>

definition write_prj :: "byte list" where
  \<comment> \<open>the text is ASCII and has no line break: the file holds its characters\<close>
  "write_prj = py_bytes wgs84"

section \<open>Files and the loader\<close>

text \<open>
  The file system is a map from paths to contents and a set of directories.  Opening a
  file for writing and \<^verbatim>\<open>os.makedirs\<close> are taken to succeed.
\<close>

record filesystem =
  files :: "pystr \<rightharpoonup> byte list"
  dirs :: "pystr set"

datatype error =
    FileNotFoundError
  | UnicodeDecodeError
  | BadZipFile
  | NoKmlInKmz      \<comment> \<open>\<^verbatim>\<open>Exception("Could not extract KML from KMZ file")\<close>\<close>
  | NoPolygons      \<comment> \<open>\<^verbatim>\<open>Exception("No polygons found in KML file")\<close>\<close>
  | WriterRaised    \<comment> \<open>\<^verbatim>\<open>struct.error\<close> or \<^verbatim>\<open>ValueError\<close> inside a writer\<close>

text \<open>
  What the program takes from the Python runtime and library: the XML parser, the parser
  of floats, Unicode lower-casing, the path functions of the platform, and the reading of
  a zip archive (the files that \<^verbatim>\<open>os.listdir\<close> finds after \<^verbatim>\<open>extractall\<close>, in
  its order, or \<open>None\<close> for an archive that cannot be opened).
\<close>

record runtime =
  ET_fromstring :: "pystr \<Rightarrow> element option"
  py_float :: "pystr \<Rightarrow> float64 option"
  str_lower :: "pystr \<Rightarrow> pystr"
  path_dirname :: "pystr \<Rightarrow> pystr"
  path_splitext :: "pystr \<Rightarrow> pystr"
  zip_listing :: "byte list \<Rightarrow> (pystr \<times> byte list) list option"

definition is_cont :: "byte \<Rightarrow> bool" where
  "is_cont b = (0x80 \<le> unat b \<and> unat b < 0xC0)"

fun utf8_decode :: "byte list \<Rightarrow> pystr option" where
  \<comment> \<open>the strict decoder of the codec \<^verbatim>\<open>utf-8\<close>: \<open>None\<close> where it raises
      \<^verbatim>\<open>UnicodeDecodeError\<close>\<close>
  "utf8_decode [] = Some []"
| "utf8_decode (b0 # rest) =
     (let n0 = unat b0 in
      if n0 < 0x80 then map_option ((#) n0) (utf8_decode rest)
      else if 0xC2 \<le> n0 \<and> n0 < 0xE0 then
        (case rest of
           b1 # r \<Rightarrow>
             if is_cont b1
             then map_option ((#) ((n0 - 0xC0) * 64 + (unat b1 - 0x80))) (utf8_decode r)
             else None
         | _ \<Rightarrow> None)
      else if 0xE0 \<le> n0 \<and> n0 < 0xF0 then
        (case rest of
           b1 # b2 # r \<Rightarrow>
             (let c = (n0 - 0xE0) * 4096 + (unat b1 - 0x80) * 64 + (unat b2 - 0x80) in
              if is_cont b1 \<and> is_cont b2 \<and> 0x800 \<le> c \<and> \<not> (0xD800 \<le> c \<and> c \<le> 0xDFFF)
              then map_option ((#) c) (utf8_decode r)
              else None)
         | _ \<Rightarrow> None)
      else if 0xF0 \<le> n0 \<and> n0 < 0xF5 then
        (case rest of
           b1 # b2 # b3 # r \<Rightarrow>
             (let c = (n0 - 0xF0) * 262144 + (unat b1 - 0x80) * 4096
                      + (unat b2 - 0x80) * 64 + (unat b3 - 0x80) in
              if is_cont b1 \<and> is_cont b2 \<and> is_cont b3 \<and> 0x10000 \<le> c \<and> c \<le> 0x10FFFF
              then map_option ((#) c) (utf8_decode r)
              else None)
         | _ \<Rightarrow> None)
      else None)"

definition read_text :: "filesystem \<Rightarrow> pystr \<Rightarrow> error + pystr" where
  \<comment> \<open>\<^verbatim>\<open>open(path, 'r', encoding='utf-8').read()\<close>: the bytes decoded as UTF-8, then
      the line ends of text mode translated to \<^verbatim>\<open>'\n'\<close>\<close>
  "read_text fsys path =
     (case files fsys path of
        None \<Rightarrow> Inl FileNotFoundError
      | Some b \<Rightarrow>
          (case utf8_decode b of
             None \<Rightarrow> Inl UnicodeDecodeError
           | Some s \<Rightarrow> Inr (replace_char 13 10 (replace_crlf s))))"

definition extract_kmz :: "runtime \<Rightarrow> filesystem \<Rightarrow> pystr \<Rightarrow> error + pystr option" where
  \<comment> \<open>lines 13 to 27; the temporary directory is removed on every path and is not part
      of the file system of the model\<close>
  "extract_kmz rt fsys kmz_path =
     (case files fsys kmz_path of
        None \<Rightarrow> Inl FileNotFoundError
      | Some b \<Rightarrow>
          (case zip_listing rt b of
             None \<Rightarrow> Inl BadZipFile
           | Some entries \<Rightarrow>
               (case List.find (\<lambda>e. endswith (fst e) (py_str ''.kml'')) entries of
                  None \<Rightarrow> Inr None
                | Some e \<Rightarrow>
                    (case utf8_decode (snd e) of
                       None \<Rightarrow> Inl UnicodeDecodeError
                     | Some s \<Rightarrow> Inr (Some (replace_char 13 10 (replace_crlf s)))))))"

definition load :: "runtime \<Rightarrow> filesystem \<Rightarrow> pystr \<Rightarrow> error + pystr" where
  \<comment> \<open>lines 274 to 280 of \<^verbatim>\<open>convert\<close>\<close>
  "load rt fsys input_file =
     (if endswith (str_lower rt input_file) (py_str ''.kmz'') then
        (case extract_kmz rt fsys input_file of
           Inl e \<Rightarrow> Inl e
         | Inr None \<Rightarrow> Inl NoKmlInKmz
         | Inr (Some kml_content) \<Rightarrow> if kml_content = [] then Inl NoKmlInKmz else Inr kml_content)
      else read_text fsys input_file)"

section \<open>The conversion: \<^verbatim>\<open>convert\<close>\<close>

definition write_file :: "filesystem \<Rightarrow> pystr \<Rightarrow> byte list \<Rightarrow> filesystem" where
  "write_file fsys path content = fsys\<lparr>files := (files fsys)(path \<mapsto> content)\<rparr>"

definition path_exists :: "filesystem \<Rightarrow> pystr \<Rightarrow> bool" where
  "path_exists fsys path = (files fsys path \<noteq> None \<or> path \<in> dirs fsys)"

definition write_components :: "converter \<Rightarrow> filesystem \<Rightarrow> pystr \<Rightarrow> (error + pystr) \<times> filesystem" where
  \<comment> \<open>lines 295 to 303: the four writers in order; a writer that raises leaves its file
      with the bytes written so far, and the later files are not written\<close>
  "write_components self fsys base_name =
     (let shp = write_shp (shapes self);
          fs1 = write_file fsys (base_name @ py_str ''.shp'') (fst shp)
      in if \<not> snd shp then (Inl WriterRaised, fs1)
      else
        let shx = write_shx (shapes self);
            fs2 = write_file fs1 (base_name @ py_str ''.shx'') (fst shx)
        in if \<not> snd shx then (Inl WriterRaised, fs2)
        else
          let dbf = write_dbf (records self);
              fs3 = write_file fs2 (base_name @ py_str ''.dbf'') (fst dbf)
          in if \<not> snd dbf then (Inl WriterRaised, fs3)
          else
            (Inr (base_name @ py_str ''.shp''),
             write_file fs3 (base_name @ py_str ''.prj'') write_prj))"

definition convert ::
  "runtime \<Rightarrow> converter \<Rightarrow> filesystem \<Rightarrow> pystr \<Rightarrow> pystr \<Rightarrow> (error + pystr) \<times> converter \<times> filesystem"
where
  "convert rt self fsys input_file output_file =
     (case load rt fsys input_file of
        Inl e \<Rightarrow> (Inl e, self, fsys)
      | Inr kml_content \<Rightarrow>
          (let parsed = parse_kml (ET_fromstring rt) (py_float rt) self kml_content;
               self1 = fst parsed
           in if \<not> snd parsed then (Inl NoPolygons, self1, fsys)
           else
             let output_dir = path_dirname rt output_file;
                 fs1 = (if output_dir \<noteq> [] \<and> \<not> path_exists fsys output_dir
                        then fsys\<lparr>dirs := insert output_dir (dirs fsys)\<rparr> else fsys);
                 base_name = path_splitext rt output_file;
                 written = write_components self1 fs1 base_name
             in (fst written, self1, snd written)))"

definition new_converter :: converter where
  \<comment> \<open>\<^verbatim>\<open>SimpleKMLToShapefile()\<close>\<close>
  "new_converter = \<lparr>shapes = [], records = []\<rparr>"

definition convert_kml_to_shapefile ::
  "runtime \<Rightarrow> filesystem \<Rightarrow> pystr \<Rightarrow> pystr \<Rightarrow> (error + pystr) \<times> filesystem"
where
  \<comment> \<open>lines 305 to 308: a new converter for every conversion\<close>
  "convert_kml_to_shapefile rt fsys input_file output_file =
     (let r = convert rt new_converter fsys input_file output_file
      in (fst r, snd (snd r)))"

section \<open>Reading the files back\<close>

text \<open>
  Modelled from the spec: a reader of the geometry file and the index file, which the
  repository does not have.  It follows the words of the round-trip property: each record
  is located by the offset and the content length (both in 16-bit words) of its index
  entry, and its pairs of doubles are read from the content, after the shape type, the
  box, the two counts and the part indices.  The result is \<open>None\<close> when a record or its
  points do not lie inside the bytes they are located in.
\<close>

definition read_points :: "byte list \<Rightarrow> nat \<Rightarrow> nat \<Rightarrow> shape" where
  \<comment> \<open>Modelled from the spec: the \<open>n\<close> interleaved pairs of doubles from byte \<open>start\<close>
      of the record contents (the repository has no reader)\<close>
  "read_points content start n =
     map (\<lambda>k. (unpack_d_le (slice (start + 16 * k) (start + 16 * k + 8) content),
                unpack_d_le (slice (start + 16 * k + 8) (start + 16 * k + 16) content)))
         [0..<n]"

definition read_record :: "byte list \<Rightarrow> nat \<Rightarrow> nat \<Rightarrow> shape option" where
  \<comment> \<open>Modelled from the spec: the record located by an offset and a content length in
      16-bit words, after its header of eight bytes (the repository has no reader)\<close>
  "read_record shp offset content_length =
     (let start = 2 * offset + 8; stop = start + 2 * content_length in
      if length shp < stop then None
      else
        let content = slice start stop shp;
            num_parts = unpack_I_le (slice 36 40 content);
            num_points = unpack_I_le (slice 40 44 content);
            points_start = 44 + 4 * num_parts
        in if length content < points_start + 16 * num_points then None
           else Some (read_points content points_start num_points))"

definition read_shapes :: "byte list \<Rightarrow> byte list \<Rightarrow> shape list option" where
  \<comment> \<open>Modelled from the spec: one record for every entry of eight bytes after the header
      of 100 bytes of the index file (the repository has no reader)\<close>
  "read_shapes shp shx =
     those (map (\<lambda>i. read_record shp
                        (unpack_I_be (slice (100 + 8 * i) (104 + 8 * i) shx))
                        (unpack_I_be (slice (104 + 8 * i) (108 + 8 * i) shx)))
                [0..<(length shx - 100) div 8])"

definition shp_record_start :: "shape list \<Rightarrow> nat \<Rightarrow> nat" where
  \<comment> \<open>the number of bytes that \<^verbatim>\<open>write_shp\<close> has written when it starts the record
      of index \<open>i\<close> (from 0): the header and the records before it\<close>
  "shp_record_start shps i =
     length (fst (run_writes (shp_header shps @ shp_records 0 (take i shps))))"

section \<open>Sample inputs\<close>

definition f_1 :: float64 where
  \<comment> \<open>the float 1.0\<close>
  "f_1 = 0x3FF0000000000000"

definition f_200 :: float64 where
  \<comment> \<open>the float 200.0\<close>
  "f_200 = 0x4069000000000000"

definition ring4 :: shape where
  \<comment> \<open>the closed ring (0,0), (1,0), (1,1), (0,0)\<close>
  "ring4 = [(0, 0), (f_1, 0), (f_1, f_1), (0, 0)]"

definition ring4_content :: "byte list" where
  \<comment> \<open>the 112 bytes of the record contents of \<open>ring4\<close>: shape type, box, number of
      parts, number of points, part index, points\<close>
  "ring4_content =
     [5, 0, 0, 0] @ (pack_d_le 0 @ pack_d_le 0 @ pack_d_le f_1 @ pack_d_le f_1)
     @ [1, 0, 0, 0] @ [4, 0, 0, 0] @ [0, 0, 0, 0]
     @ concat (map (\<lambda>coord. pack_d_le (fst coord) @ pack_d_le (snd coord)) ring4)"

definition ring3 :: shape where
  \<comment> \<open>(0,0), (1,1), (0,0): closed, with three vertices\<close>
  "ring3 = [(0, 0), (f_1, f_1), (0, 0)]"

definition sample_float :: "pystr \<Rightarrow> float64 option" where
  \<comment> \<open>the values of \<^verbatim>\<open>float\<close> on the numbers of the sample documents;
      \<^verbatim>\<open>float('x')\<close> raises \<^verbatim>\<open>ValueError\<close>\<close>
  "sample_float s =
     (if s = py_str ''0'' then Some 0
      else if s = py_str ''1'' then Some f_1
      else if s = py_str ''200'' then Some f_200
      else None)"

definition coordinates_elem :: "string \<Rightarrow> element" where
  \<comment> \<open>\<^verbatim>\<open><coordinates>...</coordinates>\<close>\<close>
  "coordinates_elem c = Element (py_str ''coordinates'') (py_str c) []"

definition polygon_elem :: "string \<Rightarrow> element" where
  \<comment> \<open>\<^verbatim>\<open><Polygon><coordinates>...</coordinates></Polygon>\<close>\<close>
  "polygon_elem c = Element (py_str ''Polygon'') [] [coordinates_elem c]"

definition name_elem :: element where
  \<comment> \<open>\<^verbatim>\<open><name>A</name>\<close>\<close>
  "name_elem = Element (py_str ''name'') (py_str ''A'') []"

definition placemark_elem :: "string \<Rightarrow> element" where
  \<comment> \<open>a placemark without a name: \<^verbatim>\<open><Placemark><Polygon>...</Polygon></Placemark>\<close>\<close>
  "placemark_elem c = Element (py_str ''Placemark'') [] [polygon_elem c]"

definition named_placemark_elem :: "string \<Rightarrow> element" where
  \<comment> \<open>\<^verbatim>\<open><Placemark><name>A</name><Polygon>...</Polygon></Placemark>\<close>\<close>
  "named_placemark_elem c = Element (py_str ''Placemark'') [] [name_elem, polygon_elem c]"

definition kml_elem :: "element list \<Rightarrow> element" where
  \<comment> \<open>\<^verbatim>\<open><kml>...</kml>\<close>\<close>
  "kml_elem es = Element (py_str ''kml'') [] es"

definition doc_ring3 :: string where
  "doc_ring3 = ''<kml><Placemark><Polygon><coordinates>0,0 1,1 0,0</coordinates></Polygon></Placemark></kml>''"

definition tree_ring3 :: element where
  "tree_ring3 = kml_elem [placemark_elem ''0,0 1,1 0,0'']"

definition doc_two :: string where
  "doc_two = ''<kml><Placemark><name>A</name><Polygon><coordinates>0,0 1,0 1,1 0,0</coordinates></Polygon></Placemark><Placemark><Polygon><coordinates>0,0 1,0 1,1 0,0</coordinates></Polygon></Placemark></kml>''"

definition tree_two :: element where
  "tree_two = kml_elem [named_placemark_elem ''0,0 1,0 1,1 0,0'', placemark_elem ''0,0 1,0 1,1 0,0'']"

definition doc_dropped :: string where
  "doc_dropped = ''<kml><Placemark><Polygon><coordinates>0,0 200,0 1,0 7 x,1 1,1 0,0</coordinates></Polygon></Placemark></kml>''"

definition tree_dropped :: element where
  "tree_dropped = kml_elem [placemark_elem ''0,0 200,0 1,0 7 x,1 1,1 0,0'']"

definition doc_empty :: string where
  "doc_empty = ''<kml></kml>''"

definition tree_empty :: element where
  "tree_empty = kml_elem []"

definition sample_xml :: "pystr \<Rightarrow> element option" where
  \<comment> \<open>the trees that \<^verbatim>\<open>ET.fromstring\<close> returns for the sample documents\<close>
  "sample_xml s =
     (if s = py_str doc_ring3 then Some tree_ring3
      else if s = py_str doc_two then Some tree_two
      else if s = py_str doc_dropped then Some tree_dropped
      else if s = py_str doc_empty then Some tree_empty
      else None)"

definition sample_runtime :: runtime where
  \<comment> \<open>the runtime on the sample inputs: paths in lower case without a directory, with
      one extension of three letters\<close>
  "sample_runtime =
     \<lparr>ET_fromstring = sample_xml, py_float = sample_float, str_lower = (\<lambda>s. s),
      path_dirname = (\<lambda>p. []), path_splitext = (\<lambda>p. take (length p - 4) p),
      zip_listing = (\<lambda>b. None)\<rparr>"


definition latin1_doc :: "byte list" where
  \<comment> \<open>\<^verbatim>\<open><kml>\xe9</kml>\<close>: a document in Latin-1 with the letter e acute\<close>
  "latin1_doc = py_bytes ''<kml>'' @ [0xE9] @ py_bytes ''</kml>''"

definition sample_fs :: filesystem where
  "sample_fs =
     \<lparr>files = [py_str ''empty.kml'' \<mapsto> py_bytes doc_empty,
                py_str ''two.kml'' \<mapsto> py_bytes doc_two,
                py_str ''latin1.kml'' \<mapsto> latin1_doc],
      dirs = {}\<rparr>"

definition other_fs :: filesystem where
  "other_fs =
     \<lparr>files = [py_str ''copy.kml'' \<mapsto> py_bytes doc_two], dirs = {py_str ''shapes''}\<rparr>"

definition first_conversion :: "(error + pystr) \<times> converter \<times> filesystem" where
  \<comment> \<open>\<^verbatim>\<open>c = SimpleKMLToShapefile(); c.convert('two.kml', 'out.shp')\<close>\<close>
  "first_conversion =
     convert sample_runtime new_converter sample_fs (py_str ''two.kml'') (py_str ''out.shp'')"

definition second_conversion :: "(error + pystr) \<times> converter \<times> filesystem" where
  \<comment> \<open>\<^verbatim>\<open>c.convert('two.kml', 'out.shp')\<close> once more, on the converter and the files
      that the first conversion left\<close>
  "second_conversion =
     convert sample_runtime (fst (snd first_conversion)) (snd (snd first_conversion))
       (py_str ''two.kml'') (py_str ''out.shp'')"

section \<open>Packed fields and written chunks\<close>

lemma unat_of_nat_byte: "unat (of_nat n :: byte) = n mod 256"
  by (simp add: unat_of_nat)

lemma be32_digits:
  fixes n :: nat
  assumes "n < 2 ^ 32"
  shows "((n div 2 ^ 24 mod 256 * 256 + n div 2 ^ 16 mod 256) * 256 + n div 2 ^ 8 mod 256) * 256
           + n mod 256 = n"
proof -
  define a where "a = n div 256"
  define b where "b = a div 256"
  define c where "c = b div 256"
  have n16: "n div 2 ^ 16 = b"
    unfolding b_def a_def by (simp add: div_mult2_eq)
  have n24: "n div 2 ^ 24 = c"
    unfolding c_def b_def a_def by (simp add: div_mult2_eq)
  have n8: "n div 2 ^ 8 = a"
    unfolding a_def by simp
  have "c < 256"
    using assms unfolding c_def b_def a_def by (simp add: div_mult2_eq less_mult_imp_div_less)
  then have c: "c mod 256 = c" by simp
  have bb: "c * 256 + b mod 256 = b"
    unfolding c_def by simp
  have aa: "b * 256 + a mod 256 = a"
    unfolding b_def by simp
  have nn: "a * 256 + n mod 256 = n"
    unfolding a_def by simp
  show ?thesis
    unfolding n16 n24 n8 c bb aa nn ..
qed

lemma unpack_pack_I_be:
  assumes "n < 2 ^ 32"
  shows "\<exists>bs. pack_I_be n = Some bs \<and> length bs = 4 \<and> unpack_I_be bs = n"
  using assms be32_digits [OF assms]
  by (simp add: pack_I_be_def unpack_I_be_def unat_of_nat_byte)

lemma run_writes_append:
  "snd (run_writes cs) \<Longrightarrow>
   run_writes (cs @ ds) = (fst (run_writes cs) @ fst (run_writes ds), snd (run_writes ds))"
proof (induction cs)
  case Nil
  then show ?case by simp
next
  case (Cons c cs)
  then show ?case by (cases c) simp_all
qed

lemma run_writes_append_fst:
  "take (length (fst (run_writes cs))) (fst (run_writes (cs @ ds))) = fst (run_writes cs)"
proof (induction cs)
  case Nil
  then show ?case by simp
next
  case (Cons c cs)
  then show ?case by (cases c) simp_all
qed

lemma length_pack_d_le: "length (pack_d_le w) = 8"
  by (simp add: pack_d_le_def)

lemma pack_d_le_0: "pack_d_le 0 = [0, 0, 0, 0, 0, 0, 0, 0]"
  by (simp add: pack_d_le_def)

lemma pack_d_le_f_1: "pack_d_le f_1 = [0, 0, 0, 0, 0, 0, 0xF0, 0x3F]"
  by (simp add: pack_d_le_def f_1_def)

section \<open>The file length of the geometry file\<close>

lemma fold_file_length:
  "fold (\<lambda>shape fl. fl + (4 + 44 + length shape * 16)) shps a
     = a + (\<Sum>s\<leftarrow>shps. 4 + 44 + 16 * length s)"
  by (induction shps arbitrary: a) simp_all

lemma file_length_shp_sum:
  "file_length_shp shps = 50 + (\<Sum>s\<leftarrow>shps. 4 + 44 + 16 * length s)"
  unfolding file_length_shp_def by (rule fold_file_length)

lemma shp_file_length_field:
  assumes "file_length_shp shps < 2 ^ 32"
  shows "unpack_I_be (slice 24 28 (fst (write_shp shps))) = file_length_shp shps"
proof -
  obtain bs where bs: "pack_I_be (file_length_shp shps) = Some bs" "length bs = 4"
    "unpack_I_be bs = file_length_shp shps"
    using unpack_pack_I_be [OF assms] by blast
  have "slice 24 28 (fst (write_shp shps)) = bs"
    using bs(1,2) by (simp add: write_shp_def shp_header_def pack_I_be_def zeros_def slice_def)
  with bs(3) show ?thesis by simp
qed

lemma shp_file_length_field_sum:
  assumes "50 + (\<Sum>s\<leftarrow>shps. 4 + 44 + 16 * length s) < 2 ^ 32"
  shows "unpack_I_be (slice 24 28 (fst (write_shp shps)))
           = 50 + (\<Sum>s\<leftarrow>shps. 4 + 44 + 16 * length s)"
  using assms shp_file_length_field [of shps] by (simp add: file_length_shp_sum)

section \<open>The two files of two rings\<close>

lemma bbox_ring4:
  "bbox_chunk ring4 = Some (pack_d_le 0 @ pack_d_le 0 @ pack_d_le f_1 @ pack_d_le f_1)"
  by (simp add: bbox_chunk_def py_min_def py_max_def ring4_def float_lt_def is_nan_def
      float_key_def f_1_def)

lemma file_bbox_two:
  "file_bbox_chunk [ring4, ring4]
     = Some (pack_d_le 0 @ pack_d_le 0 @ pack_d_le f_1 @ pack_d_le f_1)"
  by (simp add: file_bbox_chunk_def bbox_chunk_def py_min_def py_max_def ring4_def float_lt_def
      is_nan_def float_key_def f_1_def)

lemma length_ring4_content: "length ring4_content = 112"
  by (simp add: ring4_content_def ring4_def length_pack_d_le)

lemma ring4_content_bytes:
  "ring4_content =
     [5, 0, 0, 0,
      0, 0, 0, 0, 0, 0, 0, 0,  0, 0, 0, 0, 0, 0, 0, 0,
      0, 0, 0, 0, 0, 0, 0xF0, 0x3F,  0, 0, 0, 0, 0, 0, 0xF0, 0x3F,
      1, 0, 0, 0,  4, 0, 0, 0,  0, 0, 0, 0,
      0, 0, 0, 0, 0, 0, 0, 0,  0, 0, 0, 0, 0, 0, 0, 0,
      0, 0, 0, 0, 0, 0, 0xF0, 0x3F,  0, 0, 0, 0, 0, 0, 0, 0,
      0, 0, 0, 0, 0, 0, 0xF0, 0x3F,  0, 0, 0, 0, 0, 0, 0xF0, 0x3F,
      0, 0, 0, 0, 0, 0, 0, 0,  0, 0, 0, 0, 0, 0, 0, 0]"
  by (simp add: ring4_content_def ring4_def pack_d_le_0 pack_d_le_f_1)

lemma shp_record_ring4_0:
  "run_writes (shp_record 0 ring4) = ([0, 0, 0, 1, 0, 0, 0, 54] @ ring4_content, True)"
  by (simp add: shp_record_def bbox_ring4 pack_I_be_def pack_I_le_def)
     (simp add: ring4_def ring4_content_def)

lemma shp_record_ring4_1:
  "run_writes (shp_record 1 ring4) = ([0, 0, 0, 2, 0, 0, 0, 54] @ ring4_content, True)"
  by (simp add: shp_record_def bbox_ring4 pack_I_be_def pack_I_le_def)
     (simp add: ring4_def ring4_content_def)

lemma shp_header_two:
  "snd (run_writes (shp_header [ring4, ring4]))
   \<and> length (fst (run_writes (shp_header [ring4, ring4]))) = 100"
proof -
  have "file_length_shp [ring4, ring4] = 274"
    by (simp add: file_length_shp_def ring4_def)
  then show ?thesis
    by (simp add: shp_header_def file_bbox_two pack_I_be_def pack_I_le_def zeros_def
        length_pack_d_le)
qed

lemma shx_header_two:
  "snd (run_writes (shx_header [ring4, ring4]))
   \<and> length (fst (run_writes (shx_header [ring4, ring4]))) = 100"
  by (simp add: shx_header_def file_bbox_two pack_I_be_def pack_I_le_def zeros_def
      length_pack_d_le)

lemma shx_entries_two:
  "run_writes (shx_entries 50 [ring4, ring4])
     = ([0, 0, 0, 50, 0, 0, 0, 54, 0, 0, 0, 162, 0, 0, 0, 54], True)"
  by (simp add: pack_I_be_def ring4_def)

lemma write_shx_two:
  "write_shx [ring4, ring4]
     = (fst (run_writes (shx_header [ring4, ring4]))
          @ [0, 0, 0, 50, 0, 0, 0, 54, 0, 0, 0, 162, 0, 0, 0, 54], True)"
  unfolding write_shx_def
  using shx_header_two by (simp only: run_writes_append shx_entries_two fst_conv snd_conv)

lemma shp_records_two:
  "run_writes (shp_records 0 [ring4, ring4])
     = (([0, 0, 0, 1, 0, 0, 0, 54] @ ring4_content) @ ([0, 0, 0, 2, 0, 0, 0, 54] @ ring4_content),
        True)"
proof -
  have "shp_records 0 [ring4, ring4] = shp_record 0 ring4 @ shp_record 1 ring4"
    by simp
  then show ?thesis
    by (simp only: run_writes_append shp_record_ring4_0 shp_record_ring4_1 fst_conv snd_conv)
qed

lemma write_shp_two:
  "write_shp [ring4, ring4]
     = (fst (run_writes (shp_header [ring4, ring4]))
          @ ([0, 0, 0, 1, 0, 0, 0, 54] @ ring4_content)
          @ ([0, 0, 0, 2, 0, 0, 0, 54] @ ring4_content), True)"
  unfolding write_shp_def
  using shp_header_two by (simp only: run_writes_append shp_records_two fst_conv snd_conv)

lemma shp_record_start_two: "shp_record_start [ring4, ring4] 1 = 220"
proof -
  have "shp_records 0 (take 1 [ring4, ring4]) = shp_record 0 ring4"
    by simp
  then show ?thesis
    unfolding shp_record_start_def
    using shp_header_two
    by (simp only: run_writes_append shp_record_ring4_0 fst_conv snd_conv)
       (simp add: length_ring4_content)
qed

text \<open>
  C1 at two rings of four points.  The second index entry that \<^verbatim>\<open>write_shx\<close>
  writes holds the offset 162 and the content length 54, both in 16-bit words.  The
  second record that \<^verbatim>\<open>write_shp\<close> writes begins at byte 220, which is word 110: its
  header (record number 2, content length 54) is there.  The geometry file has 340 bytes,
  so that word 162 (byte 324) is inside the points of the second record.
\<close>

theorem index_offset_of_second_record:
  "unpack_I_be (slice 108 112 (fst (write_shx [ring4, ring4]))) = 162
   \<and> unpack_I_be (slice 112 116 (fst (write_shx [ring4, ring4]))) = 54
   \<and> shp_record_start [ring4, ring4] 1 = 220
   \<and> slice 220 228 (fst (write_shp [ring4, ring4])) = [0, 0, 0, 2, 0, 0, 0, 54]
   \<and> length (fst (write_shp [ring4, ring4])) = 340
   \<and> snd (write_shp [ring4, ring4]) \<and> snd (write_shx [ring4, ring4])"
proof -
  have hx: "length (fst (run_writes (shx_header [ring4, ring4]))) = 100"
    using shx_header_two by simp
  have hp: "length (fst (run_writes (shp_header [ring4, ring4]))) = 100"
    using shp_header_two by simp
  have a: "unpack_I_be (slice 108 112 (fst (write_shx [ring4, ring4]))) = 162"
    by (simp add: write_shx_two slice_def unpack_I_be_def hx)
  have b: "unpack_I_be (slice 112 116 (fst (write_shx [ring4, ring4]))) = 54"
    by (simp add: write_shx_two slice_def unpack_I_be_def hx)
  have c: "slice 220 228 (fst (write_shp [ring4, ring4])) = [0, 0, 0, 2, 0, 0, 0, 54]"
    by (simp add: write_shp_two slice_def hp length_ring4_content)
  have d: "length (fst (write_shp [ring4, ring4])) = 340"
    by (simp add: write_shp_two hp length_ring4_content)
  have e: "snd (write_shp [ring4, ring4])"
    by (simp add: write_shp_two)
  have f: "snd (write_shx [ring4, ring4])"
    by (simp add: write_shx_two)
  show ?thesis
    by (intro conjI a b shp_record_start_two c d e f)
qed

section \<open>Offsets in the index file and in the geometry file, in general\<close>

lemma pack_I_be_length:
  "n < 2 ^ 32 \<Longrightarrow> \<exists>bs. pack_I_be n = Some bs \<and> length bs = 4 \<and> unpack_I_be bs = n"
  by (rule unpack_pack_I_be)

lemma pack_I_le_length: "n < 2 ^ 32 \<Longrightarrow> \<exists>bs. pack_I_le n = Some bs \<and> length bs = 4"
  by (simp add: pack_I_le_def)

lemma py_min_Some: "xs \<noteq> [] \<Longrightarrow> \<exists>m. py_min xs = Some m"
  by (cases xs) (simp_all add: py_min_def)

lemma py_max_Some: "xs \<noteq> [] \<Longrightarrow> \<exists>m. py_max xs = Some m"
  by (cases xs) (simp_all add: py_max_def)

lemma bbox_chunk_Some:
  assumes "cs \<noteq> []"
  shows "\<exists>bb. bbox_chunk cs = Some bb \<and> length bb = 32"
proof -
  obtain a where a: "py_min (map fst cs) = Some a"
    using py_min_Some [of "map fst cs"] assms by auto
  obtain b where b: "py_min (map snd cs) = Some b"
    using py_min_Some [of "map snd cs"] assms by auto
  obtain c where c: "py_max (map fst cs) = Some c"
    using py_max_Some [of "map fst cs"] assms by auto
  obtain d where d: "py_max (map snd cs) = Some d"
    using py_max_Some [of "map snd cs"] assms by auto
  show ?thesis
    by (simp add: bbox_chunk_def a b c d length_pack_d_le)
qed

lemma points_written:
  "run_writes (concat (map (\<lambda>coord. [Some (pack_d_le (fst coord)), Some (pack_d_le (snd coord))]) s))
     = (concat (map (\<lambda>coord. pack_d_le (fst coord) @ pack_d_le (snd coord)) s), True)"
  by (induction s) simp_all

lemma length_points:
  "length (concat (map (\<lambda>coord. pack_d_le (fst coord) @ pack_d_le (snd coord)) s)) = 16 * length s"
  by (induction s) (simp_all add: length_pack_d_le)

lemma shp_record_written:
  assumes "s \<noteq> []" and "i + 1 < 2 ^ 32" and "44 + 16 * length s < 2 ^ 32"
  shows "\<exists>hn hl content. pack_I_be (i + 1) = Some hn \<and> pack_I_be (22 + 8 * length s) = Some hl
           \<and> length hn = 4 \<and> length hl = 4 \<and> unpack_I_be hl = 22 + 8 * length s
           \<and> length content = 48 + 16 * length s
           \<and> run_writes (shp_record i s) = (hn @ hl @ content, True)"
proof -
  obtain hn where hn: "pack_I_be (i + 1) = Some hn" "length hn = 4"
    using unpack_pack_I_be [OF assms(2)] by blast
  have "22 + 8 * length s < 2 ^ 32"
    using assms(3) by simp
  from unpack_pack_I_be [OF this]
  obtain hl where hl: "pack_I_be (22 + 8 * length s) = Some hl" "length hl = 4"
    "unpack_I_be hl = 22 + 8 * length s"
    by blast
  obtain bb where bb: "bbox_chunk s = Some bb" "length bb = 32"
    using bbox_chunk_Some [OF assms(1)] by blast
  have "length s < 2 ^ 32"
    using assms(3) by simp
  then obtain np where np: "pack_I_le (length s) = Some np" "length np = 4"
    using pack_I_le_length by blast
  have d: "(44 + length s * 16) div 2 = 22 + 8 * length s"
    by simp
  define content where "content = [5, 0, 0, 0] @ bb @ [1, 0, 0, 0] @ np @ [0, 0, 0, 0]
      @ concat (map (\<lambda>coord. pack_d_le (fst coord) @ pack_d_le (snd coord)) s)"
  have hn': "pack_I_be (Suc i) = Some hn"
    using hn(1) by simp
  have k: "pack_I_le 5 = Some [5, 0, 0, 0]" "pack_I_le 1 = Some [1, 0, 0, 0]"
    "pack_I_le 0 = Some [0, 0, 0, 0]" "pack_I_le (Suc 0) = Some [1, 0, 0, 0]"
    by (simp_all add: pack_I_le_def)
  have "run_writes (shp_record i s) = (hn @ hl @ content, True)"
    unfolding shp_record_def Let_def d
    by (simp add: hn' hl bb np k points_written content_def)
  moreover have "length content = 48 + 16 * length s"
    by (simp add: content_def bb np length_points)
  ultimately show ?thesis
    using hn hl by blast
qed

lemma shp_records_written:
  assumes "list_all (\<lambda>s. s \<noteq> []) shps" and "i + length shps < 2 ^ 32"
    and "(\<Sum>s\<leftarrow>shps. 4 + 44 + 16 * length s) < 2 ^ 32"
  shows "snd (run_writes (shp_records i shps))
         \<and> length (fst (run_writes (shp_records i shps))) = (\<Sum>s\<leftarrow>shps. 56 + 16 * length s)"
  using assms
proof (induction shps arbitrary: i)
  case Nil
  show ?case by simp
next
  case (Cons s shps)
  have s: "s \<noteq> []" "i + 1 < 2 ^ 32" "44 + 16 * length s < 2 ^ 32"
    using Cons.prems by simp_all
  obtain hn hl content where r: "run_writes (shp_record i s) = (hn @ hl @ content, True)"
    "length hn = 4" "length hl = 4" "length content = 48 + 16 * length s"
    using shp_record_written [OF s] by blast
  have "snd (run_writes (shp_records (i + 1) shps))
        \<and> length (fst (run_writes (shp_records (i + 1) shps))) = (\<Sum>s\<leftarrow>shps. 56 + 16 * length s)"
    using Cons.prems by (intro Cons.IH) simp_all
  then show ?case
    using r by (simp add: run_writes_append)
qed

lemma file_bbox_chunk_Some:
  assumes "list_all (\<lambda>s. s \<noteq> []) shps"
  shows "\<exists>bb. file_bbox_chunk shps = Some bb \<and> length bb = 32"
proof (cases shps)
  case Nil
  then show ?thesis by (simp add: file_bbox_chunk_def zeros_def)
next
  case (Cons s rest)
  then have "concat shps \<noteq> []"
    using assms by simp
  from bbox_chunk_Some [OF this] show ?thesis
    using Cons by (simp add: file_bbox_chunk_def)
qed

lemma shp_header_written:
  assumes "list_all (\<lambda>s. s \<noteq> []) shps" and "file_length_shp shps < 2 ^ 32"
  shows "snd (run_writes (shp_header shps)) \<and> length (fst (run_writes (shp_header shps))) = 100"
proof -
  obtain bb where bb: "file_bbox_chunk shps = Some bb" "length bb = 32"
    using file_bbox_chunk_Some [OF assms(1)] by blast
  obtain fl where fl: "pack_I_be (file_length_shp shps) = Some fl" "length fl = 4"
    using unpack_pack_I_be [OF assms(2)] by blast
  have k: "pack_I_be 9994 = Some [0, 0, 39, 10]"
    by (simp add: pack_I_be_def)
  show ?thesis
    by (simp add: shp_header_def bb fl k pack_I_le_def zeros_def length_pack_d_le)
qed

lemma sum_take_le:
  fixes f :: "'a \<Rightarrow> nat"
  shows "(\<Sum>s\<leftarrow>take i xs. f s) \<le> (\<Sum>s\<leftarrow>xs. f s)"
proof -
  have "(\<Sum>s\<leftarrow>xs. f s) = (\<Sum>s\<leftarrow>take i xs. f s) + (\<Sum>s\<leftarrow>drop i xs. f s)"
    by (metis append_take_drop_id map_append sum_list.append)
  then show ?thesis by simp
qed

lemma shp_record_start_eq:
  assumes "list_all (\<lambda>s. s \<noteq> []) shps" and "file_length_shp shps < 2 ^ 32"
  shows "shp_record_start shps i = 100 + (\<Sum>s\<leftarrow>take i shps. 56 + 16 * length s)"
proof -
  have fl: "50 + (\<Sum>s\<leftarrow>shps. 4 + 44 + 16 * length s) < 2 ^ 32"
    using assms(2) by (simp add: file_length_shp_sum)
  have len: "length shps \<le> (\<Sum>s\<leftarrow>shps. 4 + 44 + 16 * length s)"
    by (induction shps) simp_all
  have t: "(\<Sum>s\<leftarrow>take i shps. 4 + 44 + 16 * length s) \<le> (\<Sum>s\<leftarrow>shps. 4 + 44 + 16 * length s)"
    by (rule sum_take_le)
  have "list_all (\<lambda>s. s \<noteq> []) (take i shps)"
    using assms(1) by (auto simp: list_all_iff dest: in_set_takeD)
  moreover have "0 + length (take i shps) < 2 ^ 32"
    using fl len by simp
  moreover have "(\<Sum>s\<leftarrow>take i shps. 4 + 44 + 16 * length s) < 2 ^ 32"
    using fl t by linarith
  ultimately have "snd (run_writes (shp_records 0 (take i shps)))
       \<and> length (fst (run_writes (shp_records 0 (take i shps))))
           = (\<Sum>s\<leftarrow>take i shps. 56 + 16 * length s)"
    by (rule shp_records_written)
  then show ?thesis
    using shp_header_written [OF assms]
    by (simp add: shp_record_start_def run_writes_append)
qed

lemma shx_entries_written:
  assumes "offset + (\<Sum>s\<leftarrow>shps. 4 + 44 + 16 * length s) < 2 ^ 32"
  shows "snd (run_writes (shx_entries offset shps))
         \<and> length (fst (run_writes (shx_entries offset shps))) = 8 * length shps"
  using assms
proof (induction shps arbitrary: offset)
  case Nil
  show ?case by simp
next
  case (Cons s shps)
  have "offset + (4 + (44 + length s * 16)) + (\<Sum>s\<leftarrow>shps. 4 + 44 + 16 * length s) < 2 ^ 32"
    using Cons.prems by (simp add: algebra_simps)
  from Cons.IH [OF this] show ?case
    using Cons.prems by (simp add: Let_def pack_I_be_def)
qed

lemma shx_entry_fields:
  assumes "i < length shps" and "offset + (\<Sum>s\<leftarrow>shps. 4 + 44 + 16 * length s) < 2 ^ 32"
  shows "unpack_I_be (slice (8 * i) (8 * i + 4) (fst (run_writes (shx_entries offset shps))))
           = offset + (\<Sum>s\<leftarrow>take i shps. 4 + 44 + 16 * length s)
         \<and> unpack_I_be (slice (8 * i + 4) (8 * i + 8) (fst (run_writes (shx_entries offset shps))))
           = 22 + 8 * length (shps ! i)"
  using assms
proof (induction shps arbitrary: offset i)
  case Nil
  then show ?case by simp
next
  case (Cons s shps)
  have o: "offset < 2 ^ 32" and c: "22 + 8 * length s < 2 ^ 32"
    using Cons.prems(2) by simp_all
  obtain bo where bo: "pack_I_be offset = Some bo" "length bo = 4" "unpack_I_be bo = offset"
    using unpack_pack_I_be [OF o] by blast
  obtain bc where bc: "pack_I_be (22 + 8 * length s) = Some bc" "length bc = 4"
    "unpack_I_be bc = 22 + 8 * length s"
    using unpack_pack_I_be [OF c] by blast
  have d: "(44 + length s * 16) div 2 = 22 + 8 * length s"
    by simp
  have e: "fst (run_writes (shx_entries offset (s # shps)))
             = bo @ bc @ fst (run_writes (shx_entries (offset + (4 + (44 + length s * 16))) shps))"
    by (simp add: Let_def d bo bc)
  show ?case
  proof (cases i)
    case 0
    then show ?thesis
      unfolding e by (simp add: slice_def bo bc)
  next
    case (Suc j)
    have j: "j < length shps"
      using Cons.prems(1) Suc by simp
    have b: "offset + (4 + (44 + length s * 16)) + (\<Sum>s\<leftarrow>shps. 4 + 44 + 16 * length s) < 2 ^ 32"
      using Cons.prems(2) by (simp add: algebra_simps)
    have s1: "slice (8 * i) (8 * i + 4) (bo @ bc @ xs) = slice (8 * j) (8 * j + 4) xs" for xs :: "byte list"
      using Suc by (simp add: slice_def bo bc)
    have s2: "slice (8 * i + 4) (8 * i + 8) (bo @ bc @ xs) = slice (8 * j + 4) (8 * j + 8) xs"
      for xs :: "byte list"
      using Suc by (simp add: slice_def bo bc add.commute)
    show ?thesis
      unfolding e s1 s2 using Cons.IH [OF j b] Suc by (simp add: algebra_simps)
  qed
qed

lemma shx_header_written:
  assumes "list_all (\<lambda>s. s \<noteq> []) shps" and "50 + length shps * 4 < 2 ^ 32"
  shows "snd (run_writes (shx_header shps)) \<and> length (fst (run_writes (shx_header shps))) = 100"
proof -
  obtain bb where bb: "file_bbox_chunk shps = Some bb" "length bb = 32"
    using file_bbox_chunk_Some [OF assms(1)] by blast
  obtain fl where fl: "pack_I_be (50 + length shps * 4) = Some fl" "length fl = 4"
    using unpack_pack_I_be [OF assms(2)] by blast
  have k: "pack_I_be 9994 = Some [0, 0, 39, 10]"
    by (simp add: pack_I_be_def)
  show ?thesis
    by (simp add: shx_header_def bb fl k pack_I_le_def zeros_def)
qed

lemma index_entry_fields:
  assumes "list_all (\<lambda>s. s \<noteq> []) shps" and "file_length_shp shps < 2 ^ 32" and "i < length shps"
  shows "unpack_I_be (slice (100 + 8 * i) (104 + 8 * i) (fst (write_shx shps)))
           = 50 + (\<Sum>s\<leftarrow>take i shps. 4 + 44 + 16 * length s)
         \<and> unpack_I_be (slice (104 + 8 * i) (108 + 8 * i) (fst (write_shx shps)))
           = 22 + 8 * length (shps ! i)"
proof -
  have fl: "50 + (\<Sum>s\<leftarrow>shps. 4 + 44 + 16 * length s) < 2 ^ 32"
    using assms(2) by (simp add: file_length_shp_sum)
  have len: "length shps * 4 \<le> (\<Sum>s\<leftarrow>shps. 4 + 44 + 16 * length s)"
    by (induction shps) simp_all
  have h: "snd (run_writes (shx_header shps))" "length (fst (run_writes (shx_header shps))) = 100"
    using shx_header_written [OF assms(1)] fl len by simp_all
  have w: "fst (write_shx shps)
             = fst (run_writes (shx_header shps)) @ fst (run_writes (shx_entries 50 shps))"
    using h(1) by (simp add: write_shx_def run_writes_append)
  have s1: "slice (100 + 8 * i) (104 + 8 * i) (fst (write_shx shps))
              = slice (8 * i) (8 * i + 4) (fst (run_writes (shx_entries 50 shps)))"
    unfolding w by (simp add: slice_def h(2))
  have s2: "slice (104 + 8 * i) (108 + 8 * i) (fst (write_shx shps))
              = slice (8 * i + 4) (8 * i + 8) (fst (run_writes (shx_entries 50 shps)))"
    unfolding w by (simp add: slice_def h(2) add.commute)
  show ?thesis
    unfolding s1 s2 by (rule shx_entry_fields [OF assms(3) fl])
qed

text \<open>
  For every dataset whose shapes have vertices and whose file length fits its field, the
  index entry of every shape but the first holds an offset that is not the place of the
  record: twice the offset (the offset in bytes) is larger than the number of bytes
  before the record.  The first entry holds 50, and the first record begins at byte 100.
\<close>

lemma index_offset_and_record_start:
  assumes "list_all (\<lambda>s. s \<noteq> []) shps" and "file_length_shp shps < 2 ^ 32" and "i < length shps"
  shows "(i = 0 \<longrightarrow> 2 * unpack_I_be (slice (100 + 8 * i) (104 + 8 * i) (fst (write_shx shps)))
                      = shp_record_start shps i)
       \<and> (0 < i \<longrightarrow> shp_record_start shps i
                      < 2 * unpack_I_be (slice (100 + 8 * i) (104 + 8 * i) (fst (write_shx shps))))"
proof -
  have a: "unpack_I_be (slice (100 + 8 * i) (104 + 8 * i) (fst (write_shx shps)))
           = 50 + (\<Sum>s\<leftarrow>take i shps. 4 + 44 + 16 * length s)"
    using index_entry_fields [OF assms] by simp
  have b: "shp_record_start shps i = 100 + (\<Sum>s\<leftarrow>take i shps. 56 + 16 * length s)"
    by (rule shp_record_start_eq [OF assms(1,2)])
  have c: "xs \<noteq> [] \<Longrightarrow> (\<Sum>s\<leftarrow>xs. 56 + 16 * length s) < 2 * (\<Sum>s\<leftarrow>xs. 4 + 44 + 16 * length s)"
    for xs :: "shape list"
    by (induction xs) (simp_all, fastforce)
  show ?thesis
  proof (cases i)
    case 0
    then show ?thesis unfolding a b by simp
  next
    case (Suc j)
    then have "take i shps \<noteq> []"
      using assms(3) by auto
    from c [OF this] show ?thesis
      unfolding a b using Suc by simp
  qed
qed

section \<open>The length of the geometry file and the length that its header declares\<close>

lemma write_shp_written:
  assumes "list_all (\<lambda>s. s \<noteq> []) shps" and "file_length_shp shps < 2 ^ 32"
  shows "snd (write_shp shps)
         \<and> length (fst (write_shp shps)) = 100 + (\<Sum>s\<leftarrow>shps. 56 + 16 * length s)"
proof -
  have fl: "50 + (\<Sum>s\<leftarrow>shps. 4 + 44 + 16 * length s) < 2 ^ 32"
    using assms(2) by (simp add: file_length_shp_sum)
  have len: "length shps \<le> (\<Sum>s\<leftarrow>shps. 4 + 44 + 16 * length s)"
    by (induction shps) simp_all
  have "0 + length shps < 2 ^ 32"
    using fl len by simp
  moreover have "(\<Sum>s\<leftarrow>shps. 4 + 44 + 16 * length s) < 2 ^ 32"
    using fl by linarith
  ultimately have "snd (run_writes (shp_records 0 shps))
       \<and> length (fst (run_writes (shp_records 0 shps))) = (\<Sum>s\<leftarrow>shps. 56 + 16 * length s)"
    by (rule shp_records_written [OF assms(1)])
  then show ?thesis
    using shp_header_written [OF assms]
    by (simp add: write_shp_def run_writes_append)
qed

lemma write_shx_written:
  assumes "list_all (\<lambda>s. s \<noteq> []) shps" and "file_length_shp shps < 2 ^ 32"
  shows "snd (write_shx shps) \<and> length (fst (write_shx shps)) = 100 + 8 * length shps"
proof -
  have fl: "50 + (\<Sum>s\<leftarrow>shps. 4 + 44 + 16 * length s) < 2 ^ 32"
    using assms(2) by (simp add: file_length_shp_sum)
  have len: "length shps * 4 \<le> (\<Sum>s\<leftarrow>shps. 4 + 44 + 16 * length s)"
    by (induction shps) simp_all
  have h: "snd (run_writes (shx_header shps))" "length (fst (run_writes (shx_header shps))) = 100"
    using shx_header_written [OF assms(1)] fl len by simp_all
  show ?thesis
    using h shx_entries_written [OF fl]
    by (simp add: write_shx_def run_writes_append)
qed

text \<open>
  For every dataset whose shapes have vertices and whose declared length fits its field,
  the geometry file has 50 + the sum of (28 + 8 n) words over its shapes of n points,
  while its header declares 50 + the sum of (48 + 16 n): the declared length is larger
  than the file as soon as there is one shape.
\<close>

lemma declared_length_exceeds_file:
  assumes "list_all (\<lambda>s. s \<noteq> []) shps" and "file_length_shp shps < 2 ^ 32" and "shps \<noteq> []"
  shows "length (fst (write_shp shps))
           < 2 * unpack_I_be (slice 24 28 (fst (write_shp shps)))"
proof -
  have c: "xs \<noteq> [] \<Longrightarrow> (\<Sum>s\<leftarrow>xs. 56 + 16 * length s) < 2 * (\<Sum>s\<leftarrow>xs. 4 + 44 + 16 * length s)"
    for xs :: "shape list"
    by (induction xs) (simp_all, fastforce)
  show ?thesis
    using write_shp_written [OF assms(1,2)] shp_file_length_field [OF assms(2)] c [OF assms(3)]
    by (simp add: file_length_shp_sum)
qed

text \<open>
  C2 at one ring of four points.  \<^verbatim>\<open>write_shp\<close> writes a file of 220 bytes, that is
  110 words of 16 bits, and declares in its header (bytes 24 to 27) the file length 162:
  to the 50 words of the header it adds the 4 + 44 + 4 * 16 of the record, which counts
  bytes.  The sum 50 + (4 + 11 + 2 * 4) that the specification gives is 73.
\<close>

theorem file_length_field_of_one_ring:
  "unpack_I_be (slice 24 28 (fst (write_shp [ring4]))) = 162
   \<and> length (fst (write_shp [ring4])) = 220
   \<and> snd (write_shp [ring4])
   \<and> 50 + (4 + 11 + 2 * length ring4) = 73"
proof -
  have fl: "file_length_shp [ring4] = 162"
    by (simp add: file_length_shp_def ring4_def)
  have ne: "list_all (\<lambda>s. s \<noteq> []) [ring4]"
    by (simp add: ring4_def)
  have lt: "file_length_shp [ring4] < 2 ^ 32"
    by (simp add: fl)
  have a: "unpack_I_be (slice 24 28 (fst (write_shp [ring4]))) = 162"
    using shp_file_length_field [OF lt] by (simp add: fl)
  have b: "length (fst (write_shp [ring4])) = 220" and c: "snd (write_shp [ring4])"
    using write_shp_written [OF ne lt] by (simp_all add: ring4_def)
  have d: "50 + (4 + 11 + 2 * length ring4) = 73"
    by (simp add: ring4_def)
  show ?thesis
    by (intro conjI a b c d)
qed

section \<open>Reading the two rings back\<close>

lemma unpack_d_le_0: "unpack_d_le [0, 0, 0, 0, 0, 0, 0, 0] = 0"
  by (simp add: unpack_d_le_def)

lemma unpack_d_le_f_1: "unpack_d_le [0, 0, 0, 0, 0, 0, 0xF0, 0x3F] = f_1"
  by (simp add: unpack_d_le_def f_1_def)

lemma upt_0_4: "[0..<4] = [0, 1, 2, 3]"
  by (simp add: upt_rec)

lemma upt_0_2: "[0..<2] = [0, 1]"
  by (simp add: upt_rec)

text \<open>
  C4 at two rings of four points.  Reading the files of \<^verbatim>\<open>write_shp\<close> and
  \<^verbatim>\<open>write_shx\<close> back through the index gives no list of rings: the first entry
  (offset 50, length 54) stops four bytes before the end of the last point, and the
  second entry (offset 162, length 54) ends at byte 440 of a file of 340 bytes.  The same
  reader recovers both rings at the places where the records are (words 50 and 110) with
  the length that the contents have (56 words).
\<close>

theorem round_trip_of_two_rings:
  "read_shapes (fst (write_shp [ring4, ring4])) (fst (write_shx [ring4, ring4])) = None
   \<and> read_record (fst (write_shp [ring4, ring4])) 50 54 = None
   \<and> read_record (fst (write_shp [ring4, ring4])) 162 54 = None
   \<and> read_record (fst (write_shp [ring4, ring4])) 50 56 = Some ring4
   \<and> read_record (fst (write_shp [ring4, ring4])) 110 56 = Some ring4"
proof -
  have hx: "length (fst (run_writes (shx_header [ring4, ring4]))) = 100"
    using shx_header_two by simp
  have hp: "length (fst (run_writes (shp_header [ring4, ring4]))) = 100"
    using shp_header_two by simp
  have first: "read_record (fst (write_shp [ring4, ring4])) 50 54 = None"
    by (simp add: read_record_def write_shp_two hp length_ring4_content slice_def)
       (simp add: ring4_content_bytes unpack_I_le_def)
  have second: "read_record (fst (write_shp [ring4, ring4])) 162 54 = None"
    by (simp add: read_record_def write_shp_two hp length_ring4_content)
  have all: "read_shapes (fst (write_shp [ring4, ring4])) (fst (write_shx [ring4, ring4])) = None"
  proof -
    have "read_shapes (fst (write_shp [ring4, ring4])) (fst (write_shx [ring4, ring4]))
            = those [read_record (fst (write_shp [ring4, ring4])) 50 54,
                     read_record (fst (write_shp [ring4, ring4])) 162 54]"
      by (simp add: read_shapes_def write_shx_two hx upt_0_2 slice_def unpack_I_be_def)
    then show ?thesis
      by (simp add: first)
  qed
  have true1: "read_record (fst (write_shp [ring4, ring4])) 50 56 = Some ring4"
    by (simp add: read_record_def write_shp_two hp length_ring4_content slice_def)
       (simp add: ring4_content_bytes unpack_I_le_def read_points_def upt_0_4 slice_def
          unpack_d_le_0 unpack_d_le_f_1 ring4_def)
  have true2: "read_record (fst (write_shp [ring4, ring4])) 110 56 = Some ring4"
    by (simp add: read_record_def write_shp_two hp length_ring4_content slice_def)
       (simp add: ring4_content_bytes unpack_I_le_def read_points_def upt_0_4 slice_def
          unpack_d_le_0 unpack_d_le_f_1 ring4_def)
  show ?thesis
    by (intro conjI all first second true1 true2)
qed

section \<open>Rows of the attribute file\<close>

lemma utf8_encode_ignore_append:
  "utf8_encode_ignore (s @ t) = utf8_encode_ignore s @ utf8_encode_ignore t"
  by (simp add: utf8_encode_ignore_def)

lemma length_utf8_encode_ascii:
  "list_all (\<lambda>c. c < 128) s \<Longrightarrow> length (utf8_encode_ignore s) = length s"
  by (induction s) (simp_all add: utf8_encode_ignore_def utf8_encode_char_def)

lemma length_ljust: "length (ljust w f s) = max w (length s)"
  by (simp add: ljust_def)

lemma dbf_row_ascii:
  assumes "list_all (\<lambda>c. c < 128) (name r)" and "list_all (\<lambda>c. c < 128) (description r)"
  shows "length (fst (run_writes (dbf_row r))) = 151"
proof -
  have n: "list_all (\<lambda>c. c < 128) (ljust 50 32 (take 50 (name r)))"
    using assms(1) by (auto simp: ljust_def list_all_iff dest: in_set_takeD)
  have d: "list_all (\<lambda>c. c < 128) (ljust 100 32 (take 100 (description r)))"
    using assms(2) by (auto simp: ljust_def list_all_iff dest: in_set_takeD)
  show ?thesis
    by (simp add: dbf_row_def py_bytes_def length_utf8_encode_ascii [OF n]
        length_utf8_encode_ascii [OF d] length_ljust)
qed

text \<open>
  C6 at a record whose name is the one letter e acute (U+00E9).  The row that
  \<^verbatim>\<open>write_dbf\<close> writes has 152 bytes, one more than the record length 151 that its
  own header declares at bytes 10 and 11: the name is cut and padded to 50 characters
  before it is encoded, and the letter takes two bytes.
\<close>

theorem dbf_row_of_accented_name:
  "length (fst (run_writes (dbf_row \<lparr>name = [0xE9], description = []\<rparr>))) = 152
   \<and> fst (run_writes (dbf_row \<lparr>name = [0xE9], description = []\<rparr>))
       = [0x20] @ ([0xC3, 0xA9] @ replicate 49 0x20) @ replicate 100 0x20
   \<and> unpack_I_le (slice 10 12 (fst (write_dbf [\<lparr>name = [0xE9], description = []\<rparr>]))) = 151"
proof -
  have enc: "utf8_encode_ignore (replicate n 32) = replicate n 0x20" for n
    by (induction n) (simp_all add: utf8_encode_ignore_def utf8_encode_char_def)
  have e9: "utf8_encode_ignore [0xE9] = [0xC3, 0xA9]"
    by (simp add: utf8_encode_ignore_def utf8_encode_char_def)
  have row: "fst (run_writes (dbf_row \<lparr>name = [0xE9], description = []\<rparr>))
       = [0x20] @ ([0xC3, 0xA9] @ replicate 49 0x20) @ replicate 100 0x20"
    using utf8_encode_ignore_append [of "[0xE9]" "replicate 49 32"]
    by (simp add: dbf_row_def ljust_def py_bytes_def enc e9)
  have len: "length (fst (run_writes (dbf_row \<lparr>name = [0xE9], description = []\<rparr>))) = 152"
    unfolding row by simp
  have hdr: "unpack_I_le (slice 10 12 (fst (write_dbf [\<lparr>name = [0xE9], description = []\<rparr>]))) = 151"
    by (simp add: write_dbf_def dbf_header_def pack_B_def pack_I_le_def pack_H_le_def zeros_def
        slice_def unpack_I_le_def)
  show ?thesis
    by (intro conjI len row hdr)
qed

section \<open>What \<^verbatim>\<open>parse_coordinates\<close> keeps\<close>

lemma parse_part_cases:
  "parse_part pf part = [] \<or> (\<exists>v. parse_part pf part = [v] \<and> valid_vertex v)"
  unfolding parse_part_def Let_def
  by (simp split: option.split)

lemma parse_part_valid: "v \<in> set (parse_part pf part) \<Longrightarrow> valid_vertex v"
  using parse_part_cases [of pf part] by auto

lemma parse_line_valid: "v \<in> set (parse_line pf line) \<Longrightarrow> valid_vertex v"
  by (auto simp: parse_line_def Let_def split: if_splits dest: parse_part_valid)

lemma parse_coordinates_valid: "v \<in> set (parse_coordinates pf coord_text) \<Longrightarrow> valid_vertex v"
  by (auto simp: parse_coordinates_def Let_def split: if_splits dest: parse_line_valid)

lemma find_coordinates_valid: "v \<in> set (find_coordinates pf elem) \<Longrightarrow> valid_vertex v"
  by (auto simp: find_coordinates_def split: option.splits dest: parse_coordinates_valid)

lemma vertex_eq_refl: "valid_vertex v \<Longrightarrow> vertex_eq v v"
  by (simp add: valid_vertex_def vertex_eq_def float_le_def float_eq_def)

section \<open>The rings that \<^verbatim>\<open>parse_kml\<close> appends\<close>

lemma close_ring_props:
  assumes "c \<noteq> []" and "list_all valid_vertex c"
  shows "length c \<le> length (close_ring c)
         \<and> vertex_eq (hd (close_ring c)) (last (close_ring c))
         \<and> list_all valid_vertex (close_ring c)"
proof -
  have "valid_vertex (hd c)"
    using assms by (cases c) simp_all
  then show ?thesis
    using assms by (auto simp: close_ring_def vertex_eq_refl)
qed

lemma add_polygon_shapes:
  "shapes (add_polygon self nm d c) = shapes self @ (if 3 \<le> length c then [close_ring c] else [])"
  by (auto simp: add_polygon_def Let_def)

lemma parse_placemark_new:
  "\<exists>new. shapes (parse_placemark pf elem self) = shapes self @ new
     \<and> list_all (\<lambda>ring. 3 \<le> length ring \<and> vertex_eq (hd ring) (last ring)
                  \<and> list_all valid_vertex ring) new"
proof (cases "contains (py_str ''Placemark'') (elem_tag elem)
              \<and> 3 \<le> length (find_coordinates pf elem)")
  case True
  define c where "c = find_coordinates pf elem"
  have v: "list_all valid_vertex c"
    unfolding c_def by (simp add: list_all_iff find_coordinates_valid)
  have ne: "c \<noteq> []"
    using True unfolding c_def by auto
  have "shapes (parse_placemark pf elem self) = shapes self @ [close_ring c]"
    using True by (simp add: parse_placemark_def add_polygon_shapes c_def)
  moreover have "3 \<le> length (close_ring c)"
    using close_ring_props [OF ne v] True unfolding c_def by linarith
  ultimately show ?thesis
    using close_ring_props [OF ne v] by simp
next
  case False
  then have "shapes (parse_placemark pf elem self) = shapes self @ []"
    by (auto simp: parse_placemark_def add_polygon_shapes)
  then show ?thesis
    by (intro exI [of _ "[]"]) simp
qed

lemma fold_parse_placemark_new:
  "\<exists>new. shapes (fold (parse_placemark pf) es self) = shapes self @ new
     \<and> list_all (\<lambda>ring. 3 \<le> length ring \<and> vertex_eq (hd ring) (last ring)
                  \<and> list_all valid_vertex ring) new"
proof (induction es arbitrary: self)
  case Nil
  show ?case by (intro exI [of _ "[]"]) simp
next
  case (Cons e es)
  obtain n1 where n1: "shapes (parse_placemark pf e self) = shapes self @ n1"
    "list_all (\<lambda>ring. 3 \<le> length ring \<and> vertex_eq (hd ring) (last ring)
                \<and> list_all valid_vertex ring) n1"
    using parse_placemark_new by blast
  obtain n2 where n2:
    "shapes (fold (parse_placemark pf) es (parse_placemark pf e self))
       = shapes (parse_placemark pf e self) @ n2"
    "list_all (\<lambda>ring. 3 \<le> length ring \<and> vertex_eq (hd ring) (last ring)
                \<and> list_all valid_vertex ring) n2"
    using Cons.IH by blast
  show ?case
    using n1 n2 by (intro exI [of _ "n1 @ n2"]) simp
qed

lemma parse_kml_new:
  "\<exists>new. shapes (fst (parse_kml xml pf self kml_content)) = shapes self @ new
     \<and> list_all (\<lambda>ring. 3 \<le> length ring \<and> vertex_eq (hd ring) (last ring)
                  \<and> list_all valid_vertex ring) new"
proof (cases "xml kml_content")
  case None
  then show ?thesis
    by (intro exI [of _ "[]"]) (simp add: parse_kml_def)
next
  case (Some root)
  then show ?thesis
    using fold_parse_placemark_new [of pf "iter root" self]
    by (simp add: parse_kml_def parse_root_def Let_def)
qed

lemma short_coordinates_no_shape:
  "length (find_coordinates pf elem) < 3 \<Longrightarrow> parse_placemark pf elem self = self"
  by (simp add: parse_placemark_def add_polygon_def)

section \<open>The sample documents\<close>

lemma py_str_eq_iff: "py_str a = py_str b \<longleftrightarrow> a = b"
  unfolding py_str_def by (rule inj_map_eq_map) (simp add: inj_on_def)

lemma valid_vertex_00: "valid_vertex (0, 0)"
  by (simp add: valid_vertex_def float_le_def is_nan_def float_key_def f_180_def f_neg180_def
      f_90_def f_neg90_def)

lemma valid_vertex_10: "valid_vertex (f_1, 0)"
  by (simp add: valid_vertex_def float_le_def is_nan_def float_key_def f_180_def f_neg180_def
      f_90_def f_neg90_def f_1_def)

lemma valid_vertex_11: "valid_vertex (f_1, f_1)"
  by (simp add: valid_vertex_def float_le_def is_nan_def float_key_def f_180_def f_neg180_def
      f_90_def f_neg90_def f_1_def)

lemma invalid_vertex_200: "\<not> valid_vertex (f_200, 0)"
  by (simp add: valid_vertex_def float_le_def is_nan_def float_key_def f_180_def f_neg180_def
      f_90_def f_neg90_def f_200_def)

lemma vertex_eq_00: "vertex_eq (0, 0) (0, 0)"
  by (simp add: vertex_eq_def float_eq_def is_nan_def float_key_def)

lemma parse_coordinates_ring3:
  "parse_coordinates sample_float (py_str ''0,0 1,1 0,0'') = ring3"
  by (simp add: parse_coordinates_def parse_line_def parse_part_def strip_def py_isspace_def
      py_str_def sample_float_def valid_vertex_00 valid_vertex_11 ring3_def)

lemma parse_coordinates_two_vertices:
  "parse_coordinates sample_float (py_str ''0,0 1,1'') = [(0, 0), (f_1, f_1)]"
  by (simp add: parse_coordinates_def parse_line_def parse_part_def strip_def py_isspace_def
      py_str_def sample_float_def valid_vertex_00 valid_vertex_11)

lemma parse_coordinates_ring4:
  "parse_coordinates sample_float (py_str ''0,0 1,0 1,1 0,0'') = ring4"
  by (simp add: parse_coordinates_def parse_line_def parse_part_def strip_def py_isspace_def
      py_str_def sample_float_def valid_vertex_00 valid_vertex_10 valid_vertex_11 ring4_def)

lemma parse_coordinates_dropped:
  "parse_coordinates sample_float (py_str ''0,0 200,0 1,0 7 x,1 1,1 0,0'') = ring4"
  by (simp add: parse_coordinates_def parse_line_def parse_part_def strip_def py_isspace_def
      py_str_def sample_float_def valid_vertex_00 valid_vertex_10 valid_vertex_11
      invalid_vertex_200 ring4_def)

lemma polygon_check_numeral:
  "polygon_check (numeral k) elem child parent =
     (if contains (py_str ''Polygon'') (elem_tag parent) then True
      else
        (case find_parent elem (elem_tag parent) of
           None \<Rightarrow>
             (let coord_text = strip (elem_text child) in
              10 \<in> set coord_text \<or> length (split_ws coord_text) > 10)
         | Some p \<Rightarrow> polygon_check (pred_numeral k) elem child p))"
  by (simp add: numeral_eq_Suc)

lemma parse_placemark_other:
  "\<not> contains (py_str ''Placemark'') (elem_tag e) \<Longrightarrow> parse_placemark pf e self = self"
  by (simp add: parse_placemark_def)

lemma find_coordinates_placemark:
  assumes "c \<noteq> []"
  shows "find_coordinates pf (placemark_elem c) = parse_coordinates pf (py_str c)"
proof -
  have "find_coordinates pf (placemark_elem c) = parse_coordinates pf (elem_text (coordinates_elem c))"
    using assms
    by (simp add: find_coordinates_def placemark_elem_def polygon_elem_def coordinates_elem_def
        find_parent_def py_str_def polygon_check_numeral)
  then show ?thesis
    by (simp add: coordinates_elem_def)
qed

lemma find_coordinates_named_placemark:
  assumes "c \<noteq> []"
  shows "find_coordinates pf (named_placemark_elem c) = parse_coordinates pf (py_str c)"
proof -
  have "find_coordinates pf (named_placemark_elem c)
          = parse_coordinates pf (elem_text (coordinates_elem c))"
    using assms
    by (simp add: find_coordinates_def named_placemark_elem_def polygon_elem_def
        coordinates_elem_def name_elem_def find_parent_def py_str_def polygon_check_numeral)
  then show ?thesis
    by (simp add: coordinates_elem_def)
qed

lemma parse_placemark_plain:
  assumes "c \<noteq> []"
  shows "parse_placemark pf (placemark_elem c) self
           = add_polygon self [] [] (parse_coordinates pf (py_str c))"
proof -
  have "find_name (placemark_elem c) = []"
    using assms
    by (simp add: find_name_def placemark_elem_def polygon_elem_def coordinates_elem_def py_str_def)
  moreover have "find_description (placemark_elem c) = []"
    using assms
    by (simp add: find_description_def placemark_elem_def polygon_elem_def coordinates_elem_def
        py_str_def)
  moreover have "contains (py_str ''Placemark'') (elem_tag (placemark_elem c))"
    by (simp add: placemark_elem_def py_str_def)
  ultimately show ?thesis
    by (simp add: parse_placemark_def find_coordinates_placemark [OF assms])
qed

lemma parse_placemark_named:
  assumes "c \<noteq> []"
  shows "parse_placemark pf (named_placemark_elem c) self
           = add_polygon self (py_str ''A'') [] (parse_coordinates pf (py_str c))"
proof -
  have "find_name (named_placemark_elem c) = py_str ''A''"
    by (simp add: find_name_def named_placemark_elem_def name_elem_def py_str_def)
  moreover have "find_description (named_placemark_elem c) = []"
    using assms
    by (simp add: find_description_def named_placemark_elem_def name_elem_def polygon_elem_def
        coordinates_elem_def py_str_def)
  moreover have "contains (py_str ''Placemark'') (elem_tag (named_placemark_elem c))"
    by (simp add: named_placemark_elem_def py_str_def)
  ultimately show ?thesis
    by (simp add: parse_placemark_def find_coordinates_named_placemark [OF assms])
qed

lemma fold_placemark_plain:
  assumes "c \<noteq> []"
  shows "fold (parse_placemark pf) (iter (placemark_elem c)) self
           = add_polygon self [] [] (parse_coordinates pf (py_str c))"
proof -
  have i: "iter (placemark_elem c) = [placemark_elem c, polygon_elem c, coordinates_elem c]"
    by (simp add: placemark_elem_def polygon_elem_def coordinates_elem_def)
  have p: "parse_placemark pf (polygon_elem c) s = s" for s
    by (rule parse_placemark_other) (simp add: polygon_elem_def py_str_def)
  have q: "parse_placemark pf (coordinates_elem c) s = s" for s
    by (rule parse_placemark_other) (simp add: coordinates_elem_def py_str_def)
  show ?thesis
    unfolding i by (simp add: parse_placemark_plain [OF assms] p q)
qed

lemma fold_placemark_named:
  assumes "c \<noteq> []"
  shows "fold (parse_placemark pf) (iter (named_placemark_elem c)) self
           = add_polygon self (py_str ''A'') [] (parse_coordinates pf (py_str c))"
proof -
  have i: "iter (named_placemark_elem c)
             = [named_placemark_elem c, name_elem, polygon_elem c, coordinates_elem c]"
    by (simp add: named_placemark_elem_def name_elem_def polygon_elem_def coordinates_elem_def)
  have n: "parse_placemark pf name_elem s = s" for s
    by (rule parse_placemark_other) (simp add: name_elem_def py_str_def)
  have p: "parse_placemark pf (polygon_elem c) s = s" for s
    by (rule parse_placemark_other) (simp add: polygon_elem_def py_str_def)
  have q: "parse_placemark pf (coordinates_elem c) s = s" for s
    by (rule parse_placemark_other) (simp add: coordinates_elem_def py_str_def)
  show ?thesis
    unfolding i by (simp add: parse_placemark_named [OF assms] n p q)
qed

lemma parse_root_kml:
  "parse_root pf self (kml_elem es) = fold (\<lambda>e. fold (parse_placemark pf) (iter e)) es self"
proof -
  have "parse_placemark pf (kml_elem es) self = self"
    by (rule parse_placemark_other) (simp add: kml_elem_def py_str_def)
  moreover have "iter (kml_elem es) = kml_elem es # concat (map iter es)"
    by (simp add: kml_elem_def)
  moreover have "fold f (concat xss) s = fold (fold f) xss s" for f :: "element \<Rightarrow> converter \<Rightarrow> converter" and xss s
    by (induction xss arbitrary: s) simp_all
  ultimately show ?thesis
    by (simp add: parse_root_def fold_map comp_def)
qed

lemma parse_kml_ring3:
  "parse_kml sample_xml sample_float new_converter (py_str doc_ring3)
     = (\<lparr>shapes = [ring3], records = [\<lparr>name = py_str ''Polygon_2'', description = []\<rparr>]\<rparr>, True)"
proof -
  have c: "close_ring ring3 = ring3"
    by (simp add: close_ring_def ring3_def vertex_eq_00)
  have "parse_root sample_float new_converter tree_ring3
          = \<lparr>shapes = [ring3], records = [\<lparr>name = py_str ''Polygon_2'', description = []\<rparr>]\<rparr>"
    unfolding tree_ring3_def parse_root_kml
    by (simp add: fold_placemark_plain parse_coordinates_ring3 add_polygon_def c
        new_converter_def digit_char_def)
       (simp add: ring3_def py_str_def)
  then show ?thesis
    by (simp add: parse_kml_def sample_xml_def)
qed

lemma parse_kml_two:
  "parse_kml sample_xml sample_float new_converter (py_str doc_two)
     = (\<lparr>shapes = [ring4, ring4],
         records = [\<lparr>name = py_str ''A'', description = []\<rparr>,
                    \<lparr>name = py_str ''Polygon_3'', description = []\<rparr>]\<rparr>, True)"
proof -
  have c: "close_ring ring4 = ring4"
    by (simp add: close_ring_def ring4_def vertex_eq_00)
  have l: "length ring4 = 4"
    by (simp add: ring4_def)
  have "parse_root sample_float new_converter tree_two
          = \<lparr>shapes = [ring4, ring4],
              records = [\<lparr>name = py_str ''A'', description = []\<rparr>,
                         \<lparr>name = py_str ''Polygon_3'', description = []\<rparr>]\<rparr>"
    unfolding tree_two_def parse_root_kml
    by (simp add: fold_placemark_plain fold_placemark_named parse_coordinates_ring4
        add_polygon_def c l new_converter_def digit_char_def)
       (simp add: py_str_def ring4_def digit_char_def)
  moreover have "sample_xml (py_str doc_two) = Some tree_two"
    by (simp add: sample_xml_def py_str_eq_iff doc_two_def doc_ring3_def)
  ultimately show ?thesis
    by (simp add: parse_kml_def)
qed

lemma parse_kml_dropped:
  "shapes (fst (parse_kml sample_xml sample_float new_converter (py_str doc_dropped))) = [ring4]"
proof -
  have c: "close_ring ring4 = ring4"
    by (simp add: close_ring_def ring4_def vertex_eq_00)
  have l: "length ring4 = 4"
    by (simp add: ring4_def)
  have "shapes (parse_root sample_float new_converter tree_dropped) = [ring4]"
    unfolding tree_dropped_def parse_root_kml
    by (simp add: fold_placemark_plain parse_coordinates_dropped add_polygon_shapes c l
        new_converter_def)
  moreover have "sample_xml (py_str doc_dropped) = Some tree_dropped"
    by (simp add: sample_xml_def py_str_eq_iff doc_dropped_def doc_two_def doc_ring3_def)
  ultimately show ?thesis
    by (simp add: parse_kml_def Let_def)
qed

section \<open>Closed rings\<close>

lemma shapes_new_converter: "shapes new_converter = []"
  by (simp add: new_converter_def)

text \<open>
  C3, as amended.  Every ring that \<^verbatim>\<open>parse_kml\<close> appends to the dataset has at
  least three vertices, and its first vertex equals its last one; the rings that were in
  the dataset before stay as they are.  A placemark whose coordinates give fewer than
  three vertices contributes no shape.  (A ring of three vertices that is closed already
  is appended as it is: nothing asks for four vertices after the closing.)
\<close>

theorem extracted_rings_closed:
  "list_all (\<lambda>ring. 3 \<le> length ring \<and> vertex_eq (hd ring) (last ring))
     (drop (length (shapes self)) (shapes (fst (parse_kml xml pf self kml_content))))
   \<and> take (length (shapes self)) (shapes (fst (parse_kml xml pf self kml_content))) = shapes self
   \<and> (length (find_coordinates pf elem) < 3 \<longrightarrow> parse_placemark pf elem self = self)"
proof -
  obtain new where new: "shapes (fst (parse_kml xml pf self kml_content)) = shapes self @ new"
    "list_all (\<lambda>ring. 3 \<le> length ring \<and> vertex_eq (hd ring) (last ring)
                \<and> list_all valid_vertex ring) new"
    using parse_kml_new by blast
  from new(2) have "list_all (\<lambda>ring. 3 \<le> length ring \<and> vertex_eq (hd ring) (last ring)) new"
    by (simp add: list_all_iff)
  then show ?thesis
    using new(1) short_coordinates_no_shape by simp
qed

theorem extracted_rings_closed_witness:
  "list_all (\<lambda>ring. 3 \<le> length ring \<and> vertex_eq (hd ring) (last ring))
     (shapes (fst (parse_kml sample_xml sample_float new_converter (py_str doc_ring3))))
   \<and> shapes (fst (parse_kml sample_xml sample_float new_converter (py_str doc_ring3))) = [ring3]
   \<and> length (find_coordinates sample_float (placemark_elem ''0,0 1,1'')) < 3
   \<and> parse_placemark sample_float (placemark_elem ''0,0 1,1'') new_converter = new_converter"
proof -
  have h: "length (find_coordinates sample_float (placemark_elem ''0,0 1,1'')) < 3"
    by (simp add: find_coordinates_placemark parse_coordinates_two_vertices)
  show ?thesis
    using h extracted_rings_closed [where self = new_converter and xml = sample_xml
        and pf = sample_float and kml_content = "py_str doc_ring3"
        and elem = "placemark_elem ''0,0 1,1''"]
    by (simp add: shapes_new_converter parse_kml_ring3)
qed

text \<open>
  C3 as the specification states it fails on a placemark whose polygon has the
  coordinates \<^verbatim>\<open>0,0 1,1 0,0\<close>: the ring is closed, so that nothing is appended to
  it, and it enters the dataset with three vertices.
\<close>

theorem extracted_rings_closed_counterexample:
  "shapes (fst (parse_kml sample_xml sample_float new_converter (py_str doc_ring3))) = [ring3]
   \<and> length ring3 = 3 \<and> \<not> 4 \<le> length ring3"
  by (simp add: parse_kml_ring3) (simp add: ring3_def)

section \<open>Default names\<close>

lemma add_polygon_default_name:
  assumes "3 \<le> length c"
  shows "map name (records (add_polygon self [] d c))
           = map name (records self) @ [py_str ''Polygon_'' @ str_of_nat (length (shapes self) + 2)]"
  using assms by (auto simp: add_polygon_def Let_def)

text \<open>
  C5 at a document of two polygons, the first named \<^verbatim>\<open>A\<close> and the second without
  a name.  Both are extracted, and the second record has the name \<^verbatim>\<open>Polygon_3\<close>: the
  length of the list of shapes is read after the shape has been appended, and one is
  added to it.
\<close>

theorem default_name_of_second_polygon:
  "map name (records (fst (parse_kml sample_xml sample_float new_converter (py_str doc_two))))
     = [py_str ''A'', py_str ''Polygon_3'']
   \<and> shapes (fst (parse_kml sample_xml sample_float new_converter (py_str doc_two)))
     = [ring4, ring4]"
  by (simp add: parse_kml_two)

section \<open>Vertices in range\<close>

text \<open>
  C9.  Every vertex of every ring that \<^verbatim>\<open>parse_kml\<close> appends has a longitude from
  -180 to 180 and a latitude from -90 to 90.  A token without a comma, a token one of
  whose first two fields \<^verbatim>\<open>float\<close> rejects, and a token whose two numbers are out of
  range each add no vertex; \<^verbatim>\<open>parse_coordinates\<close> has no way to raise.
\<close>

theorem vertices_in_range:
  "list_all (list_all (\<lambda>v. float_le f_neg180 (fst v) \<and> float_le (fst v) f_180
                           \<and> float_le f_neg90 (snd v) \<and> float_le (snd v) f_90))
     (drop (length (shapes self)) (shapes (fst (parse_kml xml pf self kml_content))))
   \<and> (44 \<notin> set (strip p1) \<longrightarrow> parse_part pf p1 = [])
   \<and> (pf (split_char 44 (strip p2) ! 0) = None \<or> pf (split_char 44 (strip p2) ! 1) = None
        \<longrightarrow> parse_part pf p2 = [])
   \<and> (pf (split_char 44 (strip p3) ! 0) = Some lon \<and> pf (split_char 44 (strip p3) ! 1) = Some lat
        \<and> \<not> valid_vertex (lon, lat) \<longrightarrow> parse_part pf p3 = [])"
proof -
  obtain new where new: "shapes (fst (parse_kml xml pf self kml_content)) = shapes self @ new"
    "list_all (\<lambda>ring. 3 \<le> length ring \<and> vertex_eq (hd ring) (last ring)
                \<and> list_all valid_vertex ring) new"
    using parse_kml_new by blast
  from new(2) have "list_all (list_all valid_vertex) new"
    by (simp add: list_all_iff)
  then have a: "list_all (list_all (\<lambda>v. float_le f_neg180 (fst v) \<and> float_le (fst v) f_180
                           \<and> float_le f_neg90 (snd v) \<and> float_le (snd v) f_90))
     (drop (length (shapes self)) (shapes (fst (parse_kml xml pf self kml_content))))"
    using new(1) by (simp add: valid_vertex_def [abs_def])
  have b: "44 \<notin> set (strip p1) \<longrightarrow> parse_part pf p1 = []"
    by (simp add: parse_part_def Let_def)
  have c: "pf (split_char 44 (strip p2) ! 0) = None \<or> pf (split_char 44 (strip p2) ! 1) = None
        \<longrightarrow> parse_part pf p2 = []"
    by (auto simp: parse_part_def Let_def split: option.split)
  have d: "pf (split_char 44 (strip p3) ! 0) = Some lon \<and> pf (split_char 44 (strip p3) ! 1) = Some lat
        \<and> \<not> valid_vertex (lon, lat) \<longrightarrow> parse_part pf p3 = []"
    by (auto simp: parse_part_def Let_def)
  show ?thesis
    by (intro conjI a b c d)
qed

theorem vertices_in_range_witness:
  "shapes (fst (parse_kml sample_xml sample_float new_converter (py_str doc_dropped))) = [ring4]
   \<and> list_all (\<lambda>v. float_le f_neg180 (fst v) \<and> float_le (fst v) f_180
                    \<and> float_le f_neg90 (snd v) \<and> float_le (snd v) f_90) ring4
   \<and> 44 \<notin> set (strip (py_str ''7'')) \<and> parse_part sample_float (py_str ''7'') = []
   \<and> sample_float (split_char 44 (strip (py_str ''x,1'')) ! 0) = None
   \<and> parse_part sample_float (py_str ''x,1'') = []
   \<and> sample_float (split_char 44 (strip (py_str ''200,0'')) ! 0) = Some f_200
   \<and> sample_float (split_char 44 (strip (py_str ''200,0'')) ! 1) = Some 0
   \<and> \<not> valid_vertex (f_200, 0)
   \<and> parse_part sample_float (py_str ''200,0'') = []"
proof -
  have h1: "44 \<notin> set (strip (py_str ''7''))"
    by (simp add: strip_def py_isspace_def py_str_def)
  have h2: "sample_float (split_char 44 (strip (py_str ''x,1'')) ! 0) = None"
    by (simp add: strip_def py_isspace_def py_str_def sample_float_def)
  have h3: "sample_float (split_char 44 (strip (py_str ''200,0'')) ! 0) = Some f_200"
    by (simp add: strip_def py_isspace_def py_str_def sample_float_def)
  have h4: "sample_float (split_char 44 (strip (py_str ''200,0'')) ! 1) = Some 0"
    by (simp add: strip_def py_isspace_def py_str_def sample_float_def)
  show ?thesis
    using h1 h2 h3 h4 invalid_vertex_200
      vertices_in_range [where self = new_converter and xml = sample_xml and pf = sample_float
        and kml_content = "py_str doc_dropped" and ?p1.0 = "py_str ''7''"
        and ?p2.0 = "py_str ''x,1''" and ?p3.0 = "py_str ''200,0''" and lon = f_200 and lat = 0]
    by (simp add: shapes_new_converter parse_kml_dropped)
qed

section \<open>Loading the sample files\<close>

lemma unat_of_char_byte: "unat (of_char c :: byte) = of_char c"
proof -
  have "(of_char c :: byte) = of_nat (of_char c)"
    by (simp only: of_nat_of_char)
  moreover have "(of_char c :: nat) < 256"
    by simp
  ultimately show ?thesis
    by (simp only: unat_of_nat_byte mod_less)
qed

lemma utf8_decode_ascii:
  "list_all (\<lambda>c. (of_char c :: nat) < 128) s \<Longrightarrow> utf8_decode (py_bytes s) = Some (py_str s)"
proof (induction s)
  case Nil
  show ?case by (simp add: py_bytes_def py_str_def)
next
  case (Cons c s)
  then have "utf8_decode (py_bytes s) = Some (py_str s)" and "(of_char c :: nat) < 128"
    by simp_all
  then show ?case
    by (simp add: py_bytes_def py_str_def unat_of_char_byte Let_def)
qed

lemma replace_crlf_no_cr: "13 \<notin> set s \<Longrightarrow> replace_crlf s = s"
  by (induction s rule: replace_crlf.induct) auto

lemma replace_char_absent: "old \<notin> set s \<Longrightarrow> replace_char old new s = s"
  by (induction s) auto

lemma read_text_ascii:
  assumes "files fsys path = Some (py_bytes s)"
    and "list_all (\<lambda>c. (of_char c :: nat) < 128) s" and "13 \<notin> set (py_str s)"
  shows "read_text fsys path = Inr (py_str s)"
  using assms
  by (simp add: read_text_def utf8_decode_ascii replace_crlf_no_cr replace_char_absent)

lemma load_empty:
  "load sample_runtime sample_fs (py_str ''empty.kml'') = Inr (py_str doc_empty)"
proof -
  have "\<not> endswith (str_lower sample_runtime (py_str ''empty.kml'')) (py_str ''.kmz'')"
    by (simp add: sample_runtime_def endswith_def py_str_def)
  moreover have "read_text sample_fs (py_str ''empty.kml'') = Inr (py_str doc_empty)"
    by (rule read_text_ascii)
       (simp_all add: sample_fs_def py_str_eq_iff, simp_all add: doc_empty_def py_str_def)
  ultimately show ?thesis
    by (simp add: load_def)
qed

lemma load_two:
  "load sample_runtime sample_fs (py_str ''two.kml'') = Inr (py_str doc_two)"
proof -
  have "\<not> endswith (str_lower sample_runtime (py_str ''two.kml'')) (py_str ''.kmz'')"
    by (simp add: sample_runtime_def endswith_def py_str_def)
  moreover have "read_text sample_fs (py_str ''two.kml'') = Inr (py_str doc_two)"
    by (rule read_text_ascii)
       (simp_all add: sample_fs_def py_str_eq_iff, simp_all add: doc_two_def py_str_def)
  ultimately show ?thesis
    by (simp add: load_def)
qed

lemma load_copy:
  "load sample_runtime other_fs (py_str ''copy.kml'') = Inr (py_str doc_two)"
proof -
  have "\<not> endswith (str_lower sample_runtime (py_str ''copy.kml'')) (py_str ''.kmz'')"
    by (simp add: sample_runtime_def endswith_def py_str_def)
  moreover have "read_text other_fs (py_str ''copy.kml'') = Inr (py_str doc_two)"
    by (rule read_text_ascii)
       (simp_all add: other_fs_def py_str_eq_iff, simp_all add: doc_two_def py_str_def)
  ultimately show ?thesis
    by (simp add: load_def)
qed

section \<open>A document without polygons\<close>

text \<open>
  C7.  When the dataset is empty after \<^verbatim>\<open>parse_kml\<close>, \<^verbatim>\<open>convert\<close> raises
  (\<^verbatim>\<open>No polygons found in KML file\<close>) and the file system is as it was: no file is
  written and no directory is made.
\<close>

theorem no_polygons_no_output:
  assumes "load rt fsys input_file = Inr kml_content"
    and "shapes (fst (parse_kml (ET_fromstring rt) (py_float rt) self kml_content)) = []"
  shows "fst (convert rt self fsys input_file output_file) = Inl NoPolygons
         \<and> snd (snd (convert rt self fsys input_file output_file)) = fsys"
proof -
  have "\<not> snd (parse_kml (ET_fromstring rt) (py_float rt) self kml_content)"
    using assms(2) by (simp add: parse_kml_def Let_def split: option.splits)
  then show ?thesis
    using assms(1) by (simp add: convert_def Let_def)
qed

theorem no_polygons_no_output_witness:
  "load sample_runtime sample_fs (py_str ''empty.kml'') = Inr (py_str doc_empty)
   \<and> shapes (fst (parse_kml sample_xml sample_float new_converter (py_str doc_empty))) = []
   \<and> fst (convert sample_runtime new_converter sample_fs (py_str ''empty.kml'') (py_str ''out.shp''))
       = Inl NoPolygons
   \<and> snd (snd (convert sample_runtime new_converter sample_fs (py_str ''empty.kml'')
                  (py_str ''out.shp''))) = sample_fs"
proof -
  have x: "ET_fromstring sample_runtime = sample_xml" and f: "py_float sample_runtime = sample_float"
    by (simp_all add: sample_runtime_def)
  have "sample_xml (py_str doc_empty) = Some tree_empty"
    by (simp add: sample_xml_def py_str_eq_iff doc_empty_def doc_dropped_def doc_two_def
        doc_ring3_def)
  then have h: "shapes (fst (parse_kml sample_xml sample_float new_converter (py_str doc_empty))) = []"
    by (simp add: parse_kml_def tree_empty_def parse_root_kml shapes_new_converter)
  show ?thesis
    using load_empty h
      no_polygons_no_output [where rt = sample_runtime and fsys = sample_fs
        and input_file = "py_str ''empty.kml''" and kml_content = "py_str doc_empty"
        and self = new_converter and output_file = "py_str ''out.shp''"]
    by (simp add: x f)
qed

section \<open>Decoding the input file\<close>






section \<open>The four files of a conversion\<close>

lemma dbf_date_stamp: "slice 1 4 (fst (write_dbf recs)) = [24, 1, 1]"
  by (simp add: write_dbf_def dbf_header_def pack_B_def slice_def)

lemma run_writes_all_Some: "list_all (\<lambda>c. c \<noteq> None) cs \<Longrightarrow> snd (run_writes cs)"
proof (induction cs)
  case Nil
  show ?case by simp
next
  case (Cons c cs)
  then show ?case by (cases c) simp_all
qed

lemma write_dbf_completes:
  assumes "length recs < 2 ^ 32"
  shows "snd (write_dbf recs)"
proof -
  have "list_all (\<lambda>c. c \<noteq> None) (concat (map dbf_row recs))"
    by (induction recs) (simp_all add: dbf_row_def)
  moreover have "list_all (\<lambda>c. c \<noteq> None) (dbf_header recs)"
    using assms by (simp add: dbf_header_def pack_B_def pack_I_le_def pack_H_le_def)
  ultimately show ?thesis
    unfolding write_dbf_def by (intro run_writes_all_Some) simp
qed

lemma write_components_files:
  assumes "fst (write_components self fsys base) = Inr p"
  shows "p = base @ py_str ''.shp''
    \<and> snd (write_shp (shapes self)) \<and> snd (write_shx (shapes self)) \<and> snd (write_dbf (records self))
    \<and> files (snd (write_components self fsys base)) (base @ py_str ''.shp'')
        = Some (fst (write_shp (shapes self)))
    \<and> files (snd (write_components self fsys base)) (base @ py_str ''.shx'')
        = Some (fst (write_shx (shapes self)))
    \<and> files (snd (write_components self fsys base)) (base @ py_str ''.dbf'')
        = Some (fst (write_dbf (records self)))
    \<and> files (snd (write_components self fsys base)) (base @ py_str ''.prj'') = Some write_prj"
  using assms
  by (simp add: write_components_def Let_def write_file_def py_str_eq_iff split: if_splits)

lemma write_components_succeeds:
  assumes "snd (write_shp (shapes self))" and "snd (write_shx (shapes self))"
    and "snd (write_dbf (records self))"
  shows "fst (write_components self fsys base) = Inr (base @ py_str ''.shp'')"
  using assms by (simp add: write_components_def Let_def)

lemma write_components_other:
  assumes "k \<noteq> base @ py_str ''.shp''" and "k \<noteq> base @ py_str ''.shx''"
    and "k \<noteq> base @ py_str ''.dbf''" and "k \<noteq> base @ py_str ''.prj''"
  shows "files (snd (write_components self fsys base)) k = files fsys k"
  using assms by (simp add: write_components_def Let_def write_file_def)

lemma convert_unfolded:
  assumes "load rt fsys input_file = Inr kml_content"
    and "snd (parse_kml (ET_fromstring rt) (py_float rt) self kml_content)"
  shows "\<exists>fs1. files fs1 = files fsys
    \<and> convert rt self fsys input_file output_file
        = (fst (write_components (fst (parse_kml (ET_fromstring rt) (py_float rt) self kml_content))
                  fs1 (path_splitext rt output_file)),
           fst (parse_kml (ET_fromstring rt) (py_float rt) self kml_content),
           snd (write_components (fst (parse_kml (ET_fromstring rt) (py_float rt) self kml_content))
                  fs1 (path_splitext rt output_file)))"
proof -
  define fs1 where "fs1 = (if path_dirname rt output_file \<noteq> []
                              \<and> \<not> path_exists fsys (path_dirname rt output_file)
        then fsys\<lparr>dirs := insert (path_dirname rt output_file) (dirs fsys)\<rparr> else fsys)"
  have "files fs1 = files fsys"
    by (simp add: fs1_def)
  moreover have "convert rt self fsys input_file output_file
        = (fst (write_components (fst (parse_kml (ET_fromstring rt) (py_float rt) self kml_content))
                  fs1 (path_splitext rt output_file)),
           fst (parse_kml (ET_fromstring rt) (py_float rt) self kml_content),
           snd (write_components (fst (parse_kml (ET_fromstring rt) (py_float rt) self kml_content))
                  fs1 (path_splitext rt output_file)))"
    using assms by (simp add: convert_def Let_def fs1_def)
  ultimately show ?thesis
    by blast
qed

lemma convert_files:
  assumes "load rt fsys input_file = Inr kml_content"
    and "fst (convert rt self fsys input_file output_file) = Inr p"
  shows "snd (parse_kml (ET_fromstring rt) (py_float rt) self kml_content)
    \<and> fst (snd (convert rt self fsys input_file output_file))
        = fst (parse_kml (ET_fromstring rt) (py_float rt) self kml_content)
    \<and> snd (write_shp (shapes (fst (parse_kml (ET_fromstring rt) (py_float rt) self kml_content))))
    \<and> snd (write_shx (shapes (fst (parse_kml (ET_fromstring rt) (py_float rt) self kml_content))))
    \<and> snd (write_dbf (records (fst (parse_kml (ET_fromstring rt) (py_float rt) self kml_content))))
    \<and> files (snd (snd (convert rt self fsys input_file output_file)))
          (path_splitext rt output_file @ py_str ''.shp'')
        = Some (fst (write_shp (shapes (fst (parse_kml (ET_fromstring rt) (py_float rt) self kml_content)))))
    \<and> files (snd (snd (convert rt self fsys input_file output_file)))
          (path_splitext rt output_file @ py_str ''.shx'')
        = Some (fst (write_shx (shapes (fst (parse_kml (ET_fromstring rt) (py_float rt) self kml_content)))))
    \<and> files (snd (snd (convert rt self fsys input_file output_file)))
          (path_splitext rt output_file @ py_str ''.dbf'')
        = Some (fst (write_dbf (records (fst (parse_kml (ET_fromstring rt) (py_float rt) self kml_content)))))
    \<and> files (snd (snd (convert rt self fsys input_file output_file)))
          (path_splitext rt output_file @ py_str ''.prj'')
        = Some write_prj"
proof -
  have ok: "snd (parse_kml (ET_fromstring rt) (py_float rt) self kml_content)"
    using assms by (auto simp: convert_def Let_def split: if_splits)
  obtain fs1 where c: "convert rt self fsys input_file output_file
        = (fst (write_components (fst (parse_kml (ET_fromstring rt) (py_float rt) self kml_content))
                  fs1 (path_splitext rt output_file)),
           fst (parse_kml (ET_fromstring rt) (py_float rt) self kml_content),
           snd (write_components (fst (parse_kml (ET_fromstring rt) (py_float rt) self kml_content))
                  fs1 (path_splitext rt output_file)))"
    using convert_unfolded [OF assms(1) ok] by blast
  have "fst (write_components (fst (parse_kml (ET_fromstring rt) (py_float rt) self kml_content))
                  fs1 (path_splitext rt output_file)) = Inr p"
    using assms(2) unfolding c by simp
  from write_components_files [OF this] ok show ?thesis
    unfolding c by simp
qed

lemma convert_succeeds:
  assumes "load rt fsys input_file = Inr kml_content"
    and "snd (parse_kml (ET_fromstring rt) (py_float rt) self kml_content)"
    and "snd (write_shp (shapes (fst (parse_kml (ET_fromstring rt) (py_float rt) self kml_content))))"
    and "snd (write_shx (shapes (fst (parse_kml (ET_fromstring rt) (py_float rt) self kml_content))))"
    and "snd (write_dbf (records (fst (parse_kml (ET_fromstring rt) (py_float rt) self kml_content))))"
  shows "fst (convert rt self fsys input_file output_file)
           = Inr (path_splitext rt output_file @ py_str ''.shp'')"
  using assms
  by (simp add: convert_def Let_def write_components_succeeds)

lemma convert_other_files:
  assumes "k \<noteq> path_splitext rt output_file @ py_str ''.shp''"
    and "k \<noteq> path_splitext rt output_file @ py_str ''.shx''"
    and "k \<noteq> path_splitext rt output_file @ py_str ''.dbf''"
    and "k \<noteq> path_splitext rt output_file @ py_str ''.prj''"
  shows "files (snd (snd (convert rt self fsys input_file output_file))) k = files fsys k"
  using assms
  by (simp add: convert_def Let_def write_components_other split: sum.split)

text \<open>
  C10, as amended.  Two conversions that start from converters with the same contents
  and whose input files hold the same document text write the same bytes, whatever the
  two file systems, input paths and output paths are: when the first conversion succeeds,
  so does the second, both leave the same dataset in the converter, and the geometry,
  index, attribute and projection files of the one equal those of the other.  The
  program reads no clock: bytes 1 to 3 of the attribute file, the date stamp, are
  24, 1, 1.  (The runtime, that is the XML parser and \<^verbatim>\<open>float\<close>, is the same in
  both.  A new converter holds nothing, so that two calls of
  \<^verbatim>\<open>convert_kml_to_shapefile\<close> are a case of this.)
\<close>

theorem conversion_is_deterministic:
  assumes "load rt fs1 in1 = Inr kml_content" and "load rt fs2 in2 = Inr kml_content"
    and "fst (convert rt self fs1 in1 out1) = Inr p1"
  shows "fst (convert rt self fs2 in2 out2) = Inr (path_splitext rt out2 @ py_str ''.shp'')
    \<and> fst (snd (convert rt self fs1 in1 out1)) = fst (snd (convert rt self fs2 in2 out2))
    \<and> files (snd (snd (convert rt self fs1 in1 out1))) (path_splitext rt out1 @ py_str ''.shp'')
        = files (snd (snd (convert rt self fs2 in2 out2))) (path_splitext rt out2 @ py_str ''.shp'')
    \<and> files (snd (snd (convert rt self fs1 in1 out1))) (path_splitext rt out1 @ py_str ''.shx'')
        = files (snd (snd (convert rt self fs2 in2 out2))) (path_splitext rt out2 @ py_str ''.shx'')
    \<and> files (snd (snd (convert rt self fs1 in1 out1))) (path_splitext rt out1 @ py_str ''.dbf'')
        = files (snd (snd (convert rt self fs2 in2 out2))) (path_splitext rt out2 @ py_str ''.dbf'')
    \<and> files (snd (snd (convert rt self fs1 in1 out1))) (path_splitext rt out1 @ py_str ''.prj'')
        = files (snd (snd (convert rt self fs2 in2 out2))) (path_splitext rt out2 @ py_str ''.prj'')
    \<and> files (snd (snd (convert rt self fs1 in1 out1))) (path_splitext rt out1 @ py_str ''.prj'')
        = Some write_prj
    \<and> map_option (slice 1 4)
          (files (snd (snd (convert rt self fs1 in1 out1))) (path_splitext rt out1 @ py_str ''.dbf''))
        = Some [24, 1, 1]"
proof -
  note first = convert_files [OF assms(1) assms(3)]
  from first have second: "fst (convert rt self fs2 in2 out2)
      = Inr (path_splitext rt out2 @ py_str ''.shp'')"
    by (intro convert_succeeds [OF assms(2)]) simp_all
  note files2 = convert_files [OF assms(2) second]
  have a0: "fst (snd (convert rt self fs1 in1 out1)) = fst (snd (convert rt self fs2 in2 out2))"
    using first files2 by (simp only:)
  have a1: "files (snd (snd (convert rt self fs1 in1 out1))) (path_splitext rt out1 @ py_str ''.shp'')
      = files (snd (snd (convert rt self fs2 in2 out2))) (path_splitext rt out2 @ py_str ''.shp'')"
    using first files2 by (simp only:)
  have a2: "files (snd (snd (convert rt self fs1 in1 out1))) (path_splitext rt out1 @ py_str ''.shx'')
      = files (snd (snd (convert rt self fs2 in2 out2))) (path_splitext rt out2 @ py_str ''.shx'')"
    using first files2 by (simp only:)
  have a3: "files (snd (snd (convert rt self fs1 in1 out1))) (path_splitext rt out1 @ py_str ''.dbf'')
      = files (snd (snd (convert rt self fs2 in2 out2))) (path_splitext rt out2 @ py_str ''.dbf'')"
    using first files2 by (simp only:)
  have a4: "files (snd (snd (convert rt self fs1 in1 out1))) (path_splitext rt out1 @ py_str ''.prj'')
      = files (snd (snd (convert rt self fs2 in2 out2))) (path_splitext rt out2 @ py_str ''.prj'')"
    using first files2 by (simp only:)
  have a5: "files (snd (snd (convert rt self fs1 in1 out1))) (path_splitext rt out1 @ py_str ''.prj'')
      = Some write_prj"
    using first by (simp only:)
  have a6: "map_option (slice 1 4)
          (files (snd (snd (convert rt self fs1 in1 out1))) (path_splitext rt out1 @ py_str ''.dbf''))
        = Some [24, 1, 1]"
    using first by (simp only: option.map dbf_date_stamp)
  show ?thesis
    by (intro conjI second a0 a1 a2 a3 a4 a5 a6)
qed

lemma sample_runtime_parts:
  "ET_fromstring sample_runtime = sample_xml" "py_float sample_runtime = sample_float"
  "path_splitext sample_runtime (py_str ''out.shp'') = py_str ''out''"
  "path_splitext sample_runtime (py_str ''new.shp'') = py_str ''new''"
  by (simp_all add: sample_runtime_def py_str_def)

lemma first_conversion_succeeds:
  "fst first_conversion = Inr (py_str ''out'' @ py_str ''.shp'')"
proof -
  have "fst (convert sample_runtime new_converter sample_fs (py_str ''two.kml'') (py_str ''out.shp''))
     = Inr (path_splitext sample_runtime (py_str ''out.shp'') @ py_str ''.shp'')"
    by (rule convert_succeeds [OF load_two])
       (simp_all add: sample_runtime_parts parse_kml_two write_shp_two write_shx_two
          write_dbf_completes)
  then show ?thesis
    by (simp only: first_conversion_def sample_runtime_parts)
qed

theorem conversion_is_deterministic_witness:
  "load sample_runtime sample_fs (py_str ''two.kml'') = Inr (py_str doc_two)
   \<and> load sample_runtime other_fs (py_str ''copy.kml'') = Inr (py_str doc_two)
   \<and> fst (convert sample_runtime new_converter sample_fs (py_str ''two.kml'') (py_str ''out.shp''))
       = Inr (py_str ''out'' @ py_str ''.shp'')
   \<and> fst (convert sample_runtime new_converter other_fs (py_str ''copy.kml'') (py_str ''new.shp''))
       = Inr (py_str ''new'' @ py_str ''.shp'')
   \<and> files (snd (snd (convert sample_runtime new_converter sample_fs (py_str ''two.kml'') (py_str ''out.shp''))))
         (py_str ''out'' @ py_str ''.shp'')
       = files (snd (snd (convert sample_runtime new_converter other_fs (py_str ''copy.kml'') (py_str ''new.shp''))))
         (py_str ''new'' @ py_str ''.shp'')
   \<and> map_option (slice 1 4)
         (files (snd (snd (convert sample_runtime new_converter sample_fs (py_str ''two.kml'') (py_str ''out.shp''))))
           (py_str ''out'' @ py_str ''.dbf''))
       = Some [24, 1, 1]"
proof -
  note s = first_conversion_succeeds [unfolded first_conversion_def]
  note t = conversion_is_deterministic [OF load_two load_copy s,
        where ?out2.0 = "py_str ''new.shp''", unfolded sample_runtime_parts]
  have c1: "fst (convert sample_runtime new_converter other_fs (py_str ''copy.kml'') (py_str ''new.shp''))
       = Inr (py_str ''new'' @ py_str ''.shp'')"
    using t by (elim conjE)
  have c2: "files (snd (snd (convert sample_runtime new_converter sample_fs (py_str ''two.kml'') (py_str ''out.shp''))))
         (py_str ''out'' @ py_str ''.shp'')
       = files (snd (snd (convert sample_runtime new_converter other_fs (py_str ''copy.kml'') (py_str ''new.shp''))))
         (py_str ''new'' @ py_str ''.shp'')"
    using t by (elim conjE)
  have c3: "map_option (slice 1 4)
         (files (snd (snd (convert sample_runtime new_converter sample_fs (py_str ''two.kml'') (py_str ''out.shp''))))
           (py_str ''out'' @ py_str ''.dbf''))
       = Some [24, 1, 1]"
    using t by (elim conjE)
  show ?thesis
    by (intro conjI load_two load_copy s c1 c2 c3)
qed

section \<open>A second conversion on the same converter\<close>

lemma parse_root_two:
  "parse_root sample_float self tree_two
     = add_polygon (add_polygon self (py_str ''A'') [] ring4) [] [] ring4"
  unfolding tree_two_def parse_root_kml
  by (simp add: fold_placemark_plain fold_placemark_named parse_coordinates_ring4)

lemma parse_kml_two_again:
  "parse_kml sample_xml sample_float
     \<lparr>shapes = [ring4, ring4],
       records = [\<lparr>name = py_str ''A'', description = []\<rparr>,
                  \<lparr>name = py_str ''Polygon_3'', description = []\<rparr>]\<rparr> (py_str doc_two)
     = (\<lparr>shapes = [ring4, ring4, ring4, ring4],
         records = [\<lparr>name = py_str ''A'', description = []\<rparr>,
                    \<lparr>name = py_str ''Polygon_3'', description = []\<rparr>,
                    \<lparr>name = py_str ''A'', description = []\<rparr>,
                    \<lparr>name = py_str ''Polygon_5'', description = []\<rparr>]\<rparr>, True)"
proof -
  have c: "close_ring ring4 = ring4"
    by (simp add: close_ring_def ring4_def vertex_eq_00)
  have l: "length ring4 = 4"
    by (simp add: ring4_def)
  have "sample_xml (py_str doc_two) = Some tree_two"
    by (simp add: sample_xml_def py_str_eq_iff doc_two_def doc_ring3_def)
  then show ?thesis
    by (simp add: parse_kml_def parse_root_two add_polygon_def c l digit_char_def)
       (simp add: py_str_def ring4_def digit_char_def)
qed

lemma first_conversion_converter:
  "fst (snd first_conversion)
     = \<lparr>shapes = [ring4, ring4],
        records = [\<lparr>name = py_str ''A'', description = []\<rparr>,
                   \<lparr>name = py_str ''Polygon_3'', description = []\<rparr>]\<rparr>"
  using convert_files [OF load_two first_conversion_succeeds [unfolded first_conversion_def]]
  by (simp add: first_conversion_def sample_runtime_parts parse_kml_two)

lemma load_two_again:
  "load sample_runtime (snd (snd first_conversion)) (py_str ''two.kml'') = Inr (py_str doc_two)"
proof -
  have "files (snd (snd first_conversion)) (py_str ''two.kml'') = files sample_fs (py_str ''two.kml'')"
    unfolding first_conversion_def
    by (rule convert_other_files) (simp_all add: sample_runtime_parts, simp_all add: py_str_def)
  then have f: "files (snd (snd first_conversion)) (py_str ''two.kml'') = Some (py_bytes doc_two)"
    by (simp add: sample_fs_def py_str_eq_iff)
  have "\<not> endswith (str_lower sample_runtime (py_str ''two.kml'')) (py_str ''.kmz'')"
    by (simp add: sample_runtime_def endswith_def py_str_def)
  moreover have "read_text (snd (snd first_conversion)) (py_str ''two.kml'') = Inr (py_str doc_two)"
    by (rule read_text_ascii [OF f]) (simp_all add: doc_two_def py_str_def)
  ultimately show ?thesis
    by (simp add: load_def)
qed

lemma four_rings_written:
  "snd (write_shp [ring4, ring4, ring4, ring4]) \<and> snd (write_shx [ring4, ring4, ring4, ring4])
   \<and> length (fst (write_shp [ring4, ring4, ring4, ring4])) = 580"
proof -
  have ne: "list_all (\<lambda>s. s \<noteq> []) [ring4, ring4, ring4, ring4]"
    by (simp add: ring4_def)
  have lt: "file_length_shp [ring4, ring4, ring4, ring4] < 2 ^ 32"
    by (simp add: file_length_shp_def ring4_def)
  show ?thesis
    using write_shp_written [OF ne lt] write_shx_written [OF ne lt] by (simp add: ring4_def)
qed

text \<open>
  C10 as the specification states it fails on a converter that is used twice.  A new
  converter converts \<^verbatim>\<open>two.kml\<close> (two polygons) and writes a geometry file of 340
  bytes.  The same converter converts the same file, with the same text, once more: it
  still holds the two shapes of the first conversion, and it writes a geometry file of
  580 bytes with four records.
\<close>

theorem conversion_on_a_used_converter_counterexample:
  "load sample_runtime sample_fs (py_str ''two.kml'') = Inr (py_str doc_two)
   \<and> fst first_conversion = Inr (py_str ''out'' @ py_str ''.shp'')
   \<and> map_option length (files (snd (snd first_conversion)) (py_str ''out'' @ py_str ''.shp''))
       = Some 340
   \<and> load sample_runtime (snd (snd first_conversion)) (py_str ''two.kml'') = Inr (py_str doc_two)
   \<and> fst second_conversion = Inr (py_str ''out'' @ py_str ''.shp'')
   \<and> map_option length (files (snd (snd second_conversion)) (py_str ''out'' @ py_str ''.shp''))
       = Some 580"
proof -
  note s1 = first_conversion_succeeds
  have hp: "length (fst (run_writes (shp_header [ring4, ring4]))) = 100"
    using shp_header_two by simp
  have f1: "map_option length (files (snd (snd first_conversion)) (py_str ''out'' @ py_str ''.shp''))
       = Some 340"
    using convert_files [OF load_two s1 [unfolded first_conversion_def]]
    by (simp add: first_conversion_def sample_runtime_parts parse_kml_two write_shp_two hp
        length_ring4_content)
  have s2: "fst second_conversion = Inr (py_str ''out'' @ py_str ''.shp'')"
  proof -
    have "fst (convert sample_runtime (fst (snd first_conversion)) (snd (snd first_conversion))
                 (py_str ''two.kml'') (py_str ''out.shp''))
            = Inr (path_splitext sample_runtime (py_str ''out.shp'') @ py_str ''.shp'')"
      by (rule convert_succeeds [OF load_two_again])
         (simp_all add: sample_runtime_parts first_conversion_converter parse_kml_two_again
            four_rings_written write_dbf_completes)
    then show ?thesis
      by (simp only: second_conversion_def sample_runtime_parts)
  qed
  have f2: "map_option length (files (snd (snd second_conversion)) (py_str ''out'' @ py_str ''.shp''))
       = Some 580"
    using convert_files [OF load_two_again s2 [unfolded second_conversion_def]]
    by (simp add: second_conversion_def sample_runtime_parts first_conversion_converter
        parse_kml_two_again four_rings_written)
  show ?thesis
    by (intro conjI load_two s1 f1 load_two_again s2 f2)
qed

end
